theory Spec2Isabelle
  imports Main
begin


section \<open>Data model\<close>

text \<open>
  A Type is an object of the type graph. The code below only compares Types by
  identity (\<^verbatim>\<open>===\<close>) and reads their \<^verbatim>\<open>identifier\<close> (\<open>getIdentifier\<close> here,
  \<open>identifier\<close> being a keyword of Isabelle). \<open>oid\<close> is the identity of the
  object, so that two \<open>ty\<close> values are equal when they are the same object.
\<close>

datatype ty = Ty (oid: nat) (getIdentifier: string)

text \<open>
  \<^verbatim>\<open>inferType\<close> of the Inference Collector returns a Type or a list of inference
  problems (\<^verbatim>\<open>isType(result)\<close> tells them apart).
\<close>

datatype inference_result = InferredType ty | InferenceProblems "string list"

text \<open>
  A value of TypeScript type \<^verbatim>\<open>unknown\<close> that is not \<^verbatim>\<open>undefined\<close>: either a Type
  (\<^verbatim>\<open>isType\<close> holds) or any other value of the host's domain. A parameter of type
  \<^verbatim>\<open>unknown | undefined\<close> is an \<open>'d element option\<close>, with \<open>None\<close> for
  \<^verbatim>\<open>undefined\<close>.
\<close>

datatype 'd element = IsType ty | IsDomain 'd

datatype typir_problem = TypirProblem string

datatype severity = SevError | SevWarning | SevInfo | SevHint

text \<open>
  \<^verbatim>\<open>Partial<ValidationMessageDetails>\<close>, what a message provider returns: every
  field may be missing (\<open>None\<close>). In a \<^verbatim>\<open>ValidationProblem\<close> the field
  \<^verbatim>\<open>$problem\<close> is \<open>problem_tag\<close>, and in an \<^verbatim>\<open>AnnotatedTypeAfterValidation\<close> the
  field \<^verbatim>\<open>type\<close> is \<open>annotated\<close>. A comparison strategy is named by a string
  (\<^verbatim>\<open>'ASSIGNABLE_TYPE'\<close>, \<^verbatim>\<open>'EQUAL_TYPE'\<close>), as it is in the program.
\<close>

record 'd message_details =
  details_domainElement :: "'d element option"
  details_domainProperty :: "string option"
  details_domainIndex :: "int option"
  details_severity :: "severity option"
  details_message :: "string option"

record 'd validation_problem =
  problem_tag :: string
  domainElement :: "'d element"
  domainProperty :: "string option"
  domainIndex :: "int option"
  severity :: severity
  message :: string
  subProblems :: "typir_problem list"

record annotated_type =
  annotated :: ty
  userRepresentation :: string
  name :: string

type_synonym 'd message_provider = "annotated_type \<Rightarrow> annotated_type \<Rightarrow> 'd message_details"

text \<open>
  \<^verbatim>\<open>TypeSelector\<close>, in the order in which \<^verbatim>\<open>tryToResolve\<close> and
  \<^verbatim>\<open>resolveTypeSelector\<close> test it: a Type, a string identifier, a TypeInitializer,
  a TypeReference (an object on the heap, named by its address), a function
  returning a selector, and any other value of the domain.
\<close>

datatype type_initializer = TypeInitializer (getTypeInitial: ty) (getTypeFinal: ty)

datatype 'd selector =
    SelType ty
  | SelIdentifier string
  | SelInitializer type_initializer
  | SelReference nat
  | SelFunction "unit \<Rightarrow> 'd selector"
  | SelKnown 'd

record 'd reference =
  selector :: "'d selector"
  resolvedType :: "ty option"
  listeners :: "nat list"

text \<open>
  What a TypeReferenceListener callback was called with: the reference, the
  listener and the Type argument. \<open>GotType\<close> records what a \<^verbatim>\<open>getType()\<close> made
  by a listener's callback returned.
\<close>

datatype event =
    Resolved nat nat ty
  | Invalidated nat nat "ty option"
  | GotType nat nat "ty option"

text \<open>
  The services object (type graph, inference collector, printer and the factory of
  comparison strategies), the heap of TypeReference objects and the trace of the
  callbacks made so far. The graph, the collector, the printer and the strategies
  are other modules: what the graph and the collector hold is in the fields
  below, and \<^verbatim>\<open>inferType\<close>, the printer and the strategies are fields that every
  theorem quantifies over.
\<close>

record 'd world =
  graph_nodes :: "string \<rightharpoonup> ty"
  graph_listeners :: "nat list"
  inference_inferType :: "'d \<Rightarrow> inference_result"
  inference_listeners :: "nat list"
  printer_printType :: "ty \<Rightarrow> string"
  printer_printDomainElement :: "'d \<Rightarrow> bool \<Rightarrow> string"
  createTypeCheckStrategy :: "string \<Rightarrow> ty \<Rightarrow> ty \<Rightarrow> typir_problem option"
  references :: "nat \<Rightarrow> 'd reference"
  trace :: "event list"

section \<open>Validation constraints\<close>

definition quote :: string where
  "quote = [CHR 0x27]"

definition annotateType :: "'d world \<Rightarrow> ty \<Rightarrow> annotated_type" where
  "annotateType typir t =
     \<lparr>annotated = t, userRepresentation = printer_printType typir t, name = getIdentifier t\<rparr>"

text \<open>
  \<^verbatim>\<open>isType(x) ? x : this.typir.inference.inferType(x)\<close>, for a value that is not
  \<^verbatim>\<open>undefined\<close>.
\<close>

definition typeOrInfer :: "'d world \<Rightarrow> 'd element \<Rightarrow> inference_result" where
  "typeOrInfer typir x =
     (case x of IsType t \<Rightarrow> InferredType t | IsDomain d \<Rightarrow> inference_inferType typir d)"

text \<open>
  The message used when the provider gives none, and the object literal of a
  \<^verbatim>\<open>ValidationProblem\<close>, where \<^verbatim>\<open>a ?? b\<close> is \<open>b\<close> when \<open>a\<close> is missing.
\<close>

definition defaultMessage :: "ty \<Rightarrow> ty \<Rightarrow> string \<Rightarrow> bool \<Rightarrow> string" where
  "defaultMessage actualType expectedType strategy negated =
     quote @ getIdentifier actualType @ quote @ '' is '' @ (if negated then [] else ''not '')
       @ ''related to '' @ quote @ getIdentifier expectedType @ quote
       @ '' regarding '' @ strategy @ ''.''"

definition makeProblem ::
  "'d message_details \<Rightarrow> 'd element \<Rightarrow> string \<Rightarrow> typir_problem list \<Rightarrow> 'd validation_problem"
where
  "makeProblem details domainNode fallback subs =
     \<lparr>problem_tag = ''ValidationProblem'',
      domainElement = (case details_domainElement details of Some e \<Rightarrow> e | None \<Rightarrow> domainNode),
      domainProperty = details_domainProperty details,
      domainIndex = details_domainIndex details,
      severity = (case details_severity details of Some s \<Rightarrow> s | None \<Rightarrow> SevError),
      message = (case details_message details of Some m \<Rightarrow> m | None \<Rightarrow> fallback),
      subProblems = subs\<rparr>"

definition ensureNodeRelatedWithType ::
  "'d world \<Rightarrow> 'd element option \<Rightarrow> 'd element option \<Rightarrow> string \<Rightarrow> bool
     \<Rightarrow> 'd message_provider \<Rightarrow> 'd validation_problem list"
where
  "ensureNodeRelatedWithType typir domainNode expected strategy negated msg =
     (case domainNode of
        None \<Rightarrow> []
      | Some dn \<Rightarrow>
         (case expected of
            None \<Rightarrow> []
          | Some ex \<Rightarrow>
             (case typeOrInfer typir dn of
                InferenceProblems _ \<Rightarrow> []
              | InferredType actualType \<Rightarrow>
                 (case typeOrInfer typir ex of
                    InferenceProblems _ \<Rightarrow> []
                  | InferredType expectedType \<Rightarrow>
                     (case createTypeCheckStrategy typir strategy actualType expectedType of
                        Some comparisonResult \<Rightarrow>
                          if negated then []
                          else [makeProblem
                                  (msg (annotateType typir actualType) (annotateType typir expectedType))
                                  dn (defaultMessage actualType expectedType strategy negated)
                                  [comparisonResult]]
                      | None \<Rightarrow>
                          if negated
                          then [makeProblem
                                  (msg (annotateType typir actualType) (annotateType typir expectedType))
                                  dn (defaultMessage actualType expectedType strategy negated)
                                  []]
                          else [])))))"

definition ensureNodeIsAssignable ::
  "'d world \<Rightarrow> 'd element option \<Rightarrow> 'd element option \<Rightarrow> 'd message_provider
     \<Rightarrow> 'd validation_problem list"
where
  "ensureNodeIsAssignable typir sourceNode expected msg =
     ensureNodeRelatedWithType typir sourceNode expected ''ASSIGNABLE_TYPE'' False msg"

definition ensureNodeIsEquals ::
  "'d world \<Rightarrow> 'd element option \<Rightarrow> 'd element option \<Rightarrow> 'd message_provider
     \<Rightarrow> 'd validation_problem list"
where
  "ensureNodeIsEquals typir sourceNode expected msg =
     ensureNodeRelatedWithType typir sourceNode expected ''EQUAL_TYPE'' False msg"

definition ensureNodeHasNotType ::
  "'d world \<Rightarrow> 'd element option \<Rightarrow> 'd element option \<Rightarrow> 'd message_provider
     \<Rightarrow> 'd validation_problem list"
where
  "ensureNodeHasNotType typir sourceNode notExpected msg =
     ensureNodeRelatedWithType typir sourceNode notExpected ''EQUAL_TYPE'' True msg"

section \<open>Validation collector\<close>

type_synonym 'd validation_rule = "'d element option \<Rightarrow> 'd world \<Rightarrow> 'd validation_problem list"

text \<open>
  The loop of \<^verbatim>\<open>validate\<close>: \<open>problems\<close> is the array being filled, and each rule's
  result is pushed at its end.
\<close>

fun validate_loop ::
  "'d validation_rule list \<Rightarrow> 'd element option \<Rightarrow> 'd world \<Rightarrow> 'd validation_problem list
     \<Rightarrow> 'd validation_problem list"
where
  "validate_loop [] domainValue typir problems = problems"
| "validate_loop (rule # rules) domainValue typir problems =
     validate_loop rules domainValue typir (problems @ rule domainValue typir)"

definition validate ::
  "'d world \<Rightarrow> 'd validation_rule list \<Rightarrow> 'd element option \<Rightarrow> 'd validation_problem list"
where
  "validate typir validationRules domainValue = validate_loop validationRules domainValue typir []"

definition addValidationRules ::
  "'d validation_rule list \<Rightarrow> 'd validation_rule list \<Rightarrow> 'd validation_rule list"
where
  "addValidationRules validationRules rules = validationRules @ rules"

section \<open>Type selector resolution\<close>

definition getType :: "'d world \<Rightarrow> nat \<Rightarrow> ty option" where
  "getType w r = resolvedType (references w r)"

text \<open>
  \<^verbatim>\<open>tryToResolve\<close> of a TypeReference; \<open>w\<close> holds \<^verbatim>\<open>this.services\<close> and the heap
  on which a selector that is a TypeReference lives.
\<close>

primrec tryToResolve :: "'d world \<Rightarrow> 'd selector \<Rightarrow> ty option" where
  "tryToResolve w (SelType t) = Some t"
| "tryToResolve w (SelIdentifier s) = graph_nodes w s"
| "tryToResolve w (SelInitializer i) = Some (getTypeInitial i)"
| "tryToResolve w (SelReference r) = getType w r"
| "tryToResolve w (SelFunction f) = tryToResolve w (f ())"
| "tryToResolve w (SelKnown d) =
     (case inference_inferType w d of InferredType t \<Rightarrow> Some t | InferenceProblems _ \<Rightarrow> None)"

datatype error = Error string

text \<open>
  \<^verbatim>\<open>resolveTypeSelector\<close>. A \<^verbatim>\<open>throw new Error(msg)\<close> is \<open>Inl (Error msg)\<close>. The
  function is declared to return \<^verbatim>\<open>Type\<close>, but its TypeReference branch returns
  whatever \<^verbatim>\<open>selector.getType()\<close> returns, which is \<^verbatim>\<open>undefined\<close> for a
  reference that is not resolved: so the value returned is a \<open>ty option\<close>.
\<close>

primrec resolveTypeSelector :: "'d world \<Rightarrow> 'd selector \<Rightarrow> error + ty option" where
  "resolveTypeSelector services (SelType t) = Inr (Some t)"
| "resolveTypeSelector services (SelIdentifier s) =
     (case graph_nodes services s of
        Some result \<Rightarrow> Inr (Some result)
      | None \<Rightarrow> Inl (Error (''A type with identifier '' @ quote @ s @ quote
                   @ '' as TypeSelector does not exist in the type graph.'')))"
| "resolveTypeSelector services (SelInitializer i) = Inr (Some (getTypeFinal i))"
| "resolveTypeSelector services (SelReference r) = Inr (getType services r)"
| "resolveTypeSelector services (SelFunction f) = resolveTypeSelector services (f ())"
| "resolveTypeSelector services (SelKnown d) =
     (case inference_inferType services d of
        InferredType t \<Rightarrow> Inr (Some t)
      | InferenceProblems _ \<Rightarrow>
          Inl (Error (''For '' @ quote @ printer_printDomainElement services d False @ quote
                 @ '' as TypeSelector, no type can be inferred.'')))"

section \<open>Type graph and inference collector: subscriptions\<close>

text \<open>
  Modelled from the spec: the listener registries of the Type Graph and of the
  Inference Collector (\<^verbatim>\<open>addListener\<close>/\<^verbatim>\<open>removeListener\<close>), whose code is not
  among the sources. A registry is the list of the subscribed TypeReferences in
  subscription order; \<^verbatim>\<open>removeListener\<close> takes out the first entry of the listener,
  if there is one.
\<close>

definition graph_addListener :: "nat \<Rightarrow> 'd world \<Rightarrow> 'd world" where
  "graph_addListener r w = w\<lparr>graph_listeners := graph_listeners w @ [r]\<rparr>"

definition graph_removeListener :: "nat \<Rightarrow> 'd world \<Rightarrow> 'd world" where
  "graph_removeListener r w = w\<lparr>graph_listeners := remove1 r (graph_listeners w)\<rparr>"

definition inference_addListener :: "nat \<Rightarrow> 'd world \<Rightarrow> 'd world" where
  "inference_addListener r w = w\<lparr>inference_listeners := inference_listeners w @ [r]\<rparr>"

definition inference_removeListener :: "nat \<Rightarrow> 'd world \<Rightarrow> 'd world" where
  "inference_removeListener r w = w\<lparr>inference_listeners := remove1 r (inference_listeners w)\<rparr>"

section \<open>Type references\<close>

definition update_reference :: "nat \<Rightarrow> ('d reference \<Rightarrow> 'd reference) \<Rightarrow> 'd world \<Rightarrow> 'd world" where
  "update_reference r f w = w\<lparr>references := (references w)(r := f (references w r))\<rparr>"

text \<open>\<^verbatim>\<open>this.listeners.push(listener)\<close>, that is \<^verbatim>\<open>addListener(listener, false)\<close>.\<close>

definition pushListener :: "nat \<Rightarrow> nat \<Rightarrow> 'd world \<Rightarrow> 'd world" where
  "pushListener r l w = update_reference r (\<lambda>x. x\<lparr>listeners := listeners x @ [l]\<rparr>) w"

text \<open>\<^verbatim>\<open>indexOf\<close> finds the first entry, \<^verbatim>\<open>splice(index, 1)\<close> takes it out.\<close>

definition removeListener :: "nat \<Rightarrow> nat \<Rightarrow> 'd world \<Rightarrow> 'd world" where
  "removeListener r l w = update_reference r (\<lambda>x. x\<lparr>listeners := remove1 l (listeners x)\<rparr>) w"

text \<open>
  The listeners are code of the host. What a callback does is given by the host as
  a list of calls on the reference it is notified by: \<^verbatim>\<open>addListener(l, false)\<close>,
  \<^verbatim>\<open>removeListener(l)\<close> and \<^verbatim>\<open>getType()\<close>; a callback that mutates the graph or
  the collector, or that asks \<^verbatim>\<open>addListener\<close> for a notification of its own, is
  outside this model. The arguments of a callback are the listener itself, the
  reference and the Type. A listener is named by a number, and two entries of a
  listener array are the same listener when the numbers are equal.
\<close>

datatype action = CallAddListener nat | CallRemoveListener nat | CallGetType

record callbacks =
  onTypeReferenceResolved :: "nat \<Rightarrow> nat \<Rightarrow> ty \<Rightarrow> action list"
  onTypeReferenceInvalidated :: "nat \<Rightarrow> nat \<Rightarrow> ty option \<Rightarrow> action list"

text \<open>
  In what follows \<open>r\<close> is the address of the reference a method is called on
  (\<^verbatim>\<open>this\<close>) and \<open>l\<close> is a listener. A call of a callback is written to the
  trace, then the calls the callback makes are run.
\<close>

fun run_action :: "nat \<Rightarrow> nat \<Rightarrow> action \<Rightarrow> 'd world \<Rightarrow> 'd world" where
  "run_action r l (CallAddListener l') w = pushListener r l' w"
| "run_action r l (CallRemoveListener l') w = removeListener r l' w"
| "run_action r l CallGetType w = w\<lparr>trace := trace w @ [GotType r l (getType w r)]\<rparr>"

definition run_actions :: "nat \<Rightarrow> nat \<Rightarrow> action list \<Rightarrow> 'd world \<Rightarrow> 'd world" where
  "run_actions r l acts w = fold (run_action r l) acts w"

definition call_onTypeReferenceResolved ::
  "callbacks \<Rightarrow> nat \<Rightarrow> ty \<Rightarrow> nat \<Rightarrow> 'd world \<Rightarrow> 'd world"
where
  "call_onTypeReferenceResolved cb r t l w =
     run_actions r l (onTypeReferenceResolved cb l r t) (w\<lparr>trace := trace w @ [Resolved r l t]\<rparr>)"

definition call_onTypeReferenceInvalidated ::
  "callbacks \<Rightarrow> nat \<Rightarrow> ty option \<Rightarrow> nat \<Rightarrow> 'd world \<Rightarrow> 'd world"
where
  "call_onTypeReferenceInvalidated cb r previousType l w =
     run_actions r l (onTypeReferenceInvalidated cb l r previousType)
       (w\<lparr>trace := trace w @ [Invalidated r l previousType]\<rparr>)"

definition stopResolving :: "nat \<Rightarrow> 'd world \<Rightarrow> 'd world" where
  "stopResolving r w = inference_removeListener r (graph_removeListener r w)"

datatype resolve_result = ALREADY_RESOLVED | SUCCESSFULLY_RESOLVED | RESOLVING_FAILED

text \<open>
  \<^verbatim>\<open>this.listeners.slice().forEach(...)\<close> walks a copy of the listener array made
  after \<^verbatim>\<open>stopResolving\<close>: the \<open>fold\<close> runs over the list read at that moment,
  while each callback works on the world the one before it left.
\<close>

definition resolve :: "callbacks \<Rightarrow> nat \<Rightarrow> 'd world \<Rightarrow> resolve_result \<times> 'd world" where
  "resolve cb r w =
     (case resolvedType (references w r) of
        Some _ \<Rightarrow> (ALREADY_RESOLVED, w)
      | None \<Rightarrow>
         (case tryToResolve w (selector (references w r)) of
            Some t \<Rightarrow>
              (let w1 = update_reference r (\<lambda>x. x\<lparr>resolvedType := Some t\<rparr>) w;
                   w2 = stopResolving r w1
               in (SUCCESSFULLY_RESOLVED,
                   fold (call_onTypeReferenceResolved cb r t) (listeners (references w2 r)) w2))
          | None \<Rightarrow> (RESOLVING_FAILED, w)))"

definition startResolving :: "callbacks \<Rightarrow> nat \<Rightarrow> 'd world \<Rightarrow> 'd world" where
  "startResolving cb r w =
     snd (resolve cb r
            (inference_addListener r
               (graph_addListener r
                  (update_reference r (\<lambda>x. x\<lparr>resolvedType := None\<rparr>) w))))"

text \<open>\<^verbatim>\<open>new TypeReference(selector, services)\<close>, the new object being at address \<open>r\<close>.\<close>

definition construct :: "callbacks \<Rightarrow> nat \<Rightarrow> 'd selector \<Rightarrow> 'd world \<Rightarrow> 'd world" where
  "construct cb r sel w =
     startResolving cb r
       (w\<lparr>references := (references w)(r := \<lparr>selector = sel, resolvedType = None, listeners = []\<rparr>)\<rparr>)"

definition deconstruct :: "nat \<Rightarrow> 'd world \<Rightarrow> 'd world" where
  "deconstruct r w = update_reference r (\<lambda>x. x\<lparr>listeners := []\<rparr>) (stopResolving r w)"

definition addListener :: "callbacks \<Rightarrow> nat \<Rightarrow> nat \<Rightarrow> bool \<Rightarrow> 'd world \<Rightarrow> 'd world" where
  "addListener cb r l informAboutCurrentState w =
     (let w1 = pushListener r l w
      in if informAboutCurrentState
         then (case resolvedType (references w1 r) of
                 Some t \<Rightarrow> call_onTypeReferenceResolved cb r t l w1
               | None \<Rightarrow> call_onTypeReferenceInvalidated cb r None l w1)
         else w1)"

definition addedType :: "callbacks \<Rightarrow> nat \<Rightarrow> ty \<Rightarrow> string \<Rightarrow> 'd world \<Rightarrow> 'd world" where
  "addedType cb r added key w = snd (resolve cb r w)"

text \<open>
  Each callback of the pass is given \<^verbatim>\<open>this.resolvedType\<close> as it is when that
  callback is called.
\<close>

definition removedType :: "callbacks \<Rightarrow> nat \<Rightarrow> ty \<Rightarrow> string \<Rightarrow> 'd world \<Rightarrow> 'd world" where
  "removedType cb r removed key w =
     (if Some removed = resolvedType (references w r)
      then startResolving cb r
             (fold (\<lambda>l w'. call_onTypeReferenceInvalidated cb r (resolvedType (references w' r)) l w')
                (listeners (references w r)) w)
      else w)"

datatype type_edge = TypeEdge ty ty string

definition addedEdge :: "nat \<Rightarrow> type_edge \<Rightarrow> 'd world \<Rightarrow> 'd world" where
  "addedEdge r edge w = w"

definition removedEdge :: "nat \<Rightarrow> type_edge \<Rightarrow> 'd world \<Rightarrow> 'd world" where
  "removedEdge r edge w = w"

definition addedInferenceRule ::
  "callbacks \<Rightarrow> nat \<Rightarrow> 'rule \<Rightarrow> ty option \<Rightarrow> 'd world \<Rightarrow> 'd world"
where
  "addedInferenceRule cb r rule boundToType w = snd (resolve cb r w)"

definition removedInferenceRule :: "nat \<Rightarrow> 'rule \<Rightarrow> ty option \<Rightarrow> 'd world \<Rightarrow> 'd world" where
  "removedInferenceRule r rule boundToType w = w"

section \<open>Mutations of the type graph and of the inference collector\<close>

text \<open>
  Modelled from the spec: the mutations of the Type Graph and of the Inference
  Collector, whose code is not among the sources. The spec says that the graph is a
  registry of Types under string identifiers, that it invokes \<^verbatim>\<open>addedType\<close>,
  \<^verbatim>\<open>removedType\<close>, \<^verbatim>\<open>addedEdge\<close> and \<^verbatim>\<open>removedEdge\<close> on its listeners, that the
  collector invokes \<^verbatim>\<open>addedInferenceRule\<close> and \<^verbatim>\<open>removedInferenceRule\<close> on its
  listeners, and that the notifications of one mutation fire in the subscription
  order of the references. The listeners notified are those subscribed when the
  mutation is made. What \<^verbatim>\<open>inferType\<close> computes once a rule is added or removed is
  an argument, \<open>inferType'\<close>: the spec leaves the matching of rules open.
\<close>

definition graph_addNode :: "callbacks \<Rightarrow> ty \<Rightarrow> string \<Rightarrow> 'd world \<Rightarrow> 'd world" where
  "graph_addNode cb t key w =
     (let w' = w\<lparr>graph_nodes := (graph_nodes w)(key \<mapsto> t)\<rparr>
      in fold (\<lambda>r. addedType cb r t key) (graph_listeners w') w')"

definition graph_removeNode :: "callbacks \<Rightarrow> ty \<Rightarrow> string \<Rightarrow> 'd world \<Rightarrow> 'd world" where
  "graph_removeNode cb t key w =
     (let w' = w\<lparr>graph_nodes := (graph_nodes w)(key := None)\<rparr>
      in fold (\<lambda>r. removedType cb r t key) (graph_listeners w') w')"

definition graph_addEdge :: "type_edge \<Rightarrow> 'd world \<Rightarrow> 'd world" where
  "graph_addEdge edge w = fold (\<lambda>r. addedEdge r edge) (graph_listeners w) w"

definition graph_removeEdge :: "type_edge \<Rightarrow> 'd world \<Rightarrow> 'd world" where
  "graph_removeEdge edge w = fold (\<lambda>r. removedEdge r edge) (graph_listeners w) w"

definition inference_addInferenceRule ::
  "callbacks \<Rightarrow> ('d \<Rightarrow> inference_result) \<Rightarrow> ty option \<Rightarrow> 'd world \<Rightarrow> 'd world"
where
  "inference_addInferenceRule cb inferType' boundToType w =
     (let w' = w\<lparr>inference_inferType := inferType'\<rparr>
      in fold (\<lambda>r. addedInferenceRule cb r inferType' boundToType) (inference_listeners w') w')"

definition inference_removeInferenceRule ::
  "('d \<Rightarrow> inference_result) \<Rightarrow> ty option \<Rightarrow> 'd world \<Rightarrow> 'd world"
where
  "inference_removeInferenceRule inferType' boundToType w =
     (let w' = w\<lparr>inference_inferType := inferType'\<rparr>
      in fold (\<lambda>r. removedInferenceRule r inferType' boundToType) (inference_listeners w') w')"

section \<open>Runs of the system\<close>

text \<open>
  The calls that can be made on a world: the public methods of a TypeReference
  (the six notification handlers among them, which any caller may invoke) and
  the mutations of the graph and of the collector.
\<close>

datatype 'd notification =
    AddedType ty string
  | RemovedType ty string
  | AddedEdge type_edge
  | RemovedEdge type_edge
  | AddedInferenceRule "'d \<Rightarrow> inference_result" "ty option"
  | RemovedInferenceRule "'d \<Rightarrow> inference_result" "ty option"

datatype 'd operation =
    OpConstruct nat "'d selector"
  | OpDeconstruct nat
  | OpAddListener nat nat bool
  | OpRemoveListener nat nat
  | OpDeliver nat "'d notification"
  | OpGraphAddNode ty string
  | OpGraphRemoveNode ty string
  | OpGraphAddEdge type_edge
  | OpGraphRemoveEdge type_edge
  | OpAddInferenceRule "'d \<Rightarrow> inference_result" "ty option"
  | OpRemoveInferenceRule "'d \<Rightarrow> inference_result" "ty option"

fun deliver :: "callbacks \<Rightarrow> nat \<Rightarrow> 'd notification \<Rightarrow> 'd world \<Rightarrow> 'd world" where
  "deliver cb r (AddedType t key) w = addedType cb r t key w"
| "deliver cb r (RemovedType t key) w = removedType cb r t key w"
| "deliver cb r (AddedEdge edge) w = addedEdge r edge w"
| "deliver cb r (RemovedEdge edge) w = removedEdge r edge w"
| "deliver cb r (AddedInferenceRule rule b) w = addedInferenceRule cb r rule b w"
| "deliver cb r (RemovedInferenceRule rule b) w = removedInferenceRule r rule b w"

fun step :: "callbacks \<Rightarrow> 'd operation \<Rightarrow> 'd world \<Rightarrow> 'd world" where
  "step cb (OpConstruct r sel) w = construct cb r sel w"
| "step cb (OpDeconstruct r) w = deconstruct r w"
| "step cb (OpAddListener r l inform) w = addListener cb r l inform w"
| "step cb (OpRemoveListener r l) w = removeListener r l w"
| "step cb (OpDeliver r n) w = deliver cb r n w"
| "step cb (OpGraphAddNode t key) w = graph_addNode cb t key w"
| "step cb (OpGraphRemoveNode t key) w = graph_removeNode cb t key w"
| "step cb (OpGraphAddEdge edge) w = graph_addEdge edge w"
| "step cb (OpGraphRemoveEdge edge) w = graph_removeEdge edge w"
| "step cb (OpAddInferenceRule rule b) w = inference_addInferenceRule cb rule b w"
| "step cb (OpRemoveInferenceRule rule b) w = inference_removeInferenceRule rule b w"

definition run :: "callbacks \<Rightarrow> 'd operation list \<Rightarrow> 'd world \<Rightarrow> 'd world" where
  "run cb ops w = fold (step cb) ops w"

text \<open>The operation is a call of a method of the reference \<open>r\<close>, or creates it.\<close>

fun addressed_to :: "nat \<Rightarrow> 'd operation \<Rightarrow> bool" where
  "addressed_to r (OpConstruct r' sel) = (r' = r)"
| "addressed_to r (OpDeconstruct r') = (r' = r)"
| "addressed_to r (OpAddListener r' l inform) = (r' = r)"
| "addressed_to r (OpRemoveListener r' l) = (r' = r)"
| "addressed_to r (OpDeliver r' n) = (r' = r)"
| "addressed_to r _ = False"

text \<open>The operation ends the life of the reference \<open>r\<close>, or starts a new one.\<close>

fun ends_life :: "nat \<Rightarrow> 'd operation \<Rightarrow> bool" where
  "ends_life r (OpConstruct r' sel) = (r' = r)"
| "ends_life r (OpDeconstruct r') = (r' = r)"
| "ends_life r _ = False"

text \<open>The callbacks that listeners of the reference \<open>r\<close> received, in order.\<close>

fun notification_of :: "nat \<Rightarrow> event \<Rightarrow> bool" where
  "notification_of r (Resolved r' l t) = (r' = r)"
| "notification_of r (Invalidated r' l t) = (r' = r)"
| "notification_of r (GotType r' l t) = False"

definition notifications :: "nat \<Rightarrow> event list \<Rightarrow> event list" where
  "notifications r tr = filter (notification_of r) tr"

definition subscribed :: "'d world \<Rightarrow> nat \<Rightarrow> bool" where
  "subscribed w r = (r \<in> set (graph_listeners w) \<and> r \<in> set (inference_listeners w))"

definition unsubscribed :: "'d world \<Rightarrow> nat \<Rightarrow> bool" where
  "unsubscribed w r = (r \<notin> set (graph_listeners w) \<and> r \<notin> set (inference_listeners w))"

text \<open>
  The reference is in each registry once while it has no Type and not at all
  while it has one.
\<close>

definition subscription_count :: "'d world \<Rightarrow> nat \<Rightarrow> bool" where
  "subscription_count w r =
     (count_list (graph_listeners w) r = (if getType w r = None then 1 else 0) \<and>
      count_list (inference_listeners w) r = (if getType w r = None then 1 else 0))"

section \<open>Notification passes in closed form\<close>

text \<open>
  The definitions of this section are not code of the program: they say what a
  pass of callbacks leaves behind (the listener array and the events of the
  trace), and the lemmas below show that the program computes exactly that.
  \<open>apply_action\<close> is the effect of one call of a callback on the listener array;
  \<open>action_events\<close> are the \<open>GotType\<close> events of a callback while the Type of the
  reference is \<open>slot\<close>; \<open>set_listeners\<close> replaces the listener array of a
  reference and extends the trace.
\<close>

fun apply_action :: "action \<Rightarrow> nat list \<Rightarrow> nat list" where
  "apply_action (CallAddListener l) ls = ls @ [l]"
| "apply_action (CallRemoveListener l) ls = remove1 l ls"
| "apply_action CallGetType ls = ls"

fun action_events :: "nat \<Rightarrow> nat \<Rightarrow> ty option \<Rightarrow> action list \<Rightarrow> event list" where
  "action_events r l slot [] = []"
| "action_events r l slot (CallGetType # acts) = GotType r l slot # action_events r l slot acts"
| "action_events r l slot (a # acts) = action_events r l slot acts"

definition set_listeners :: "nat \<Rightarrow> nat list \<Rightarrow> event list \<Rightarrow> 'd world \<Rightarrow> 'd world" where
  "set_listeners r ls evs w =
     w\<lparr>references := (references w)(r := (references w r)\<lparr>listeners := ls\<rparr>),
       trace := trace w @ evs\<rparr>"

text \<open>
  \<open>listeners_after\<close> is the listener array after the callbacks of the listeners
  of \<open>snapshot\<close>; \<open>resolved_pass\<close> and \<open>invalidated_pass\<close> are the events of a
  pass over \<open>snapshot\<close>; \<open>resolved_state\<close> is the world in which the callbacks of a
  successful resolution start.
\<close>

definition listeners_after :: "(nat \<Rightarrow> action list) \<Rightarrow> nat list \<Rightarrow> nat list \<Rightarrow> nat list" where
  "listeners_after acts snapshot ls = fold (\<lambda>l. fold apply_action (acts l)) snapshot ls"

definition resolved_pass :: "callbacks \<Rightarrow> nat \<Rightarrow> ty \<Rightarrow> ty option \<Rightarrow> nat list \<Rightarrow> event list" where
  "resolved_pass cb r t slot snapshot =
     concat (map (\<lambda>l. Resolved r l t # action_events r l slot (onTypeReferenceResolved cb l r t))
               snapshot)"

definition invalidated_pass :: "callbacks \<Rightarrow> nat \<Rightarrow> ty option \<Rightarrow> nat list \<Rightarrow> event list" where
  "invalidated_pass cb r previousType snapshot =
     concat (map (\<lambda>l. Invalidated r l previousType
                        # action_events r l previousType (onTypeReferenceInvalidated cb l r previousType))
               snapshot)"

definition resolved_state :: "nat \<Rightarrow> ty \<Rightarrow> 'd world \<Rightarrow> 'd world" where
  "resolved_state r t w = stopResolving r (update_reference r (\<lambda>x. x\<lparr>resolvedType := Some t\<rparr>) w)"

text \<open>
  Nothing of the reference \<open>r\<close> differs between the two worlds: its fields, the
  callbacks its listeners received and its entries in the two registries.
\<close>

definition untouched :: "nat \<Rightarrow> 'd world \<Rightarrow> 'd world \<Rightarrow> bool" where
  "untouched r w w' =
     (references w' r = references w r \<and>
      notifications r (trace w') = notifications r (trace w) \<and>
      count_list (graph_listeners w') r = count_list (graph_listeners w) r \<and>
      count_list (inference_listeners w') r = count_list (inference_listeners w) r)"

text \<open>The selector that remains once the selector functions are called.\<close>

primrec final_selector :: "'d selector \<Rightarrow> 'd selector" where
  "final_selector (SelType t) = SelType t"
| "final_selector (SelIdentifier s) = SelIdentifier s"
| "final_selector (SelInitializer i) = SelInitializer i"
| "final_selector (SelReference r) = SelReference r"
| "final_selector (SelFunction f) = final_selector (f ())"
| "final_selector (SelKnown d) = SelKnown d"


text \<open>
  From \<open>w\<close> to \<open>v\<close> the graph holds the same Types, \<^verbatim>\<open>inferType\<close> is the same
  function, and every reference that is resolved in \<open>w\<close> has the same Type in \<open>v\<close>.
\<close>

definition settled :: "'d world \<Rightarrow> 'd world \<Rightarrow> bool" where
  "settled w v =
     (graph_nodes v = graph_nodes w \<and> inference_inferType v = inference_inferType w \<and>
      (\<forall>q. getType w q \<noteq> None \<longrightarrow> getType v q = getType w q))"


text \<open>
  The operation creates a reference at \<open>r\<close> or hands a notification to \<open>r\<close>
  without going through a registry.
\<close>

fun bypasses_registry :: "nat \<Rightarrow> 'd operation \<Rightarrow> bool" where
  "bypasses_registry r (OpConstruct r' sel) = (r' = r)"
| "bypasses_registry r (OpDeliver r' n) = (r' = r)"
| "bypasses_registry r _ = False"

section \<open>Example worlds\<close>

definition typeNumber :: ty where "typeNumber = Ty 1 ''number''"
definition typeString :: ty where "typeString = Ty 2 ''string''"
definition typeA :: ty where "typeA = Ty 3 ''A''"

definition no_reference :: "nat reference" where
  "no_reference = \<lparr>selector = SelIdentifier [], resolvedType = None, listeners = []\<rparr>"

text \<open>
  A world with no Type in its graph and no reference, where the domain values
  are numbers: 0 is inferred to be of type number, 1 of type string, and nothing
  else is inferred. Its comparison strategies report a mismatch for two
  different Types.
\<close>

definition world0 :: "nat world" where
  "world0 =
     \<lparr>graph_nodes = Map.empty,
      graph_listeners = [],
      inference_inferType =
        (\<lambda>d. if d = 0 then InferredType typeNumber
             else if d = 1 then InferredType typeString
             else InferenceProblems [''no rule'']),
      inference_listeners = [],
      printer_printType = getIdentifier,
      printer_printDomainElement = (\<lambda>d b. ''node''),
      createTypeCheckStrategy = (\<lambda>s a e. if a = e then None else Some (TypirProblem ''mismatch'')),
      references = (\<lambda>r. no_reference),
      trace = []\<rparr>"

definition no_details :: "annotated_type \<Rightarrow> annotated_type \<Rightarrow> nat message_details" where
  "no_details actual expected =
     \<lparr>details_domainElement = None, details_domainProperty = None, details_domainIndex = None,
      details_severity = None, details_message = None\<rparr>"

text \<open>
  Listener 1 registers listener 3, removes listener 2 and reads the Type of the
  reference in each of its callbacks; every other listener only reads the Type.
\<close>

definition callbacks0 :: callbacks where
  "callbacks0 =
     \<lparr>onTypeReferenceResolved =
        (\<lambda>l r t. if l = 1 then [CallAddListener 3, CallRemoveListener 2, CallGetType] else [CallGetType]),
      onTypeReferenceInvalidated =
        (\<lambda>l r t. if l = 1 then [CallAddListener 3, CallRemoveListener 2, CallGetType] else [CallGetType])\<rparr>"

definition ops0 :: "nat operation list" where
  "ops0 = [OpAddListener 0 1 True, OpAddListener 0 2 False, OpGraphAddNode typeA ''A'']"


text \<open>Another Type with the identifier A.\<close>

definition typeA2 :: ty where "typeA2 = Ty 4 ''A''"

text \<open>
  The Type A is added to the graph, then a reference to the identifier A is
  created at address 0 (it resolves at once) and two listeners are registered.
\<close>

definition setup3 :: "nat operation list" where
  "setup3 = [OpGraphAddNode typeA ''A'', OpConstruct 0 (SelIdentifier ''A''), OpAddListener 0 1 False,
             OpAddListener 0 2 False]"



section \<open>Callbacks, resolution and the registries\<close>

lemma addListener_silent: "addListener cb r l False w = pushListener r l w"
  by (simp add: addListener_def)

lemma set_listeners_fields [simp]:
  "graph_nodes (set_listeners r ls evs w) = graph_nodes w"
  "graph_listeners (set_listeners r ls evs w) = graph_listeners w"
  "inference_inferType (set_listeners r ls evs w) = inference_inferType w"
  "inference_listeners (set_listeners r ls evs w) = inference_listeners w"
  "printer_printType (set_listeners r ls evs w) = printer_printType w"
  "printer_printDomainElement (set_listeners r ls evs w) = printer_printDomainElement w"
  "createTypeCheckStrategy (set_listeners r ls evs w) = createTypeCheckStrategy w"
  "trace (set_listeners r ls evs w) = trace w @ evs"
  "q \<noteq> r \<Longrightarrow> references (set_listeners r ls evs w) q = references w q"
  "listeners (references (set_listeners r ls evs w) r) = ls"
  "resolvedType (references (set_listeners r ls evs w) q) = resolvedType (references w q)"
  "selector (references (set_listeners r ls evs w) q) = selector (references w q)"
  "getType (set_listeners r ls evs w) q = getType w q"
  by (simp_all add: set_listeners_def getType_def)

lemma set_listeners_twice [simp]:
  "set_listeners r ls' evs' (set_listeners r ls evs w) = set_listeners r ls' (evs @ evs') w"
  by (simp add: set_listeners_def)

lemma set_listeners_same:
  "set_listeners r (listeners (references w r)) [] w = w"
  by (simp add: set_listeners_def)

lemma run_action_eq:
  "run_action r l a w =
     set_listeners r (apply_action a (listeners (references w r)))
       (action_events r l (getType w r) [a]) w"
  by (cases a) (simp_all add: set_listeners_def pushListener_def removeListener_def
        update_reference_def)

lemma action_events_append:
  "action_events r l slot (as @ bs) = action_events r l slot as @ action_events r l slot bs"
  by (induction r l slot as rule: action_events.induct) simp_all

lemma run_actions_eq:
  "run_actions r l acts w =
     set_listeners r (fold apply_action acts (listeners (references w r)))
       (action_events r l (getType w r) acts) w"
proof (induction acts arbitrary: w)
  case Nil
  show ?case by (simp add: run_actions_def set_listeners_same)
next
  case (Cons a acts)
  have "run_actions r l (a # acts) w = run_actions r l acts (run_action r l a w)"
    by (simp add: run_actions_def)
  also have "\<dots> = set_listeners r (fold apply_action (a # acts) (listeners (references w r)))
       (action_events r l (getType w r) (a # acts)) w"
    using action_events_append [of r l "getType w r" "[a]" acts]
    by (simp add: Cons.IH run_action_eq)
  finally show ?case .
qed

lemma call_resolved_eq:
  "call_onTypeReferenceResolved cb r t l w =
     set_listeners r (fold apply_action (onTypeReferenceResolved cb l r t) (listeners (references w r)))
       (Resolved r l t # action_events r l (getType w r) (onTypeReferenceResolved cb l r t)) w"
  by (simp add: call_onTypeReferenceResolved_def run_actions_eq set_listeners_def getType_def)

lemma call_invalidated_eq:
  "call_onTypeReferenceInvalidated cb r p l w =
     set_listeners r (fold apply_action (onTypeReferenceInvalidated cb l r p) (listeners (references w r)))
       (Invalidated r l p # action_events r l (getType w r) (onTypeReferenceInvalidated cb l r p)) w"
  by (simp add: call_onTypeReferenceInvalidated_def run_actions_eq set_listeners_def getType_def)

lemma resolved_fold_eq:
  "fold (call_onTypeReferenceResolved cb r t) snapshot w =
     set_listeners r
       (listeners_after (\<lambda>l. onTypeReferenceResolved cb l r t) snapshot (listeners (references w r)))
       (resolved_pass cb r t (getType w r) snapshot) w"
proof (induction snapshot arbitrary: w)
  case Nil
  show ?case by (simp add: listeners_after_def resolved_pass_def set_listeners_same)
next
  case (Cons l snapshot)
  let ?w = "call_onTypeReferenceResolved cb r t l w"
  have "fold (call_onTypeReferenceResolved cb r t) (l # snapshot) w =
          fold (call_onTypeReferenceResolved cb r t) snapshot ?w"
    by simp
  also have "\<dots> = set_listeners r
       (listeners_after (\<lambda>l. onTypeReferenceResolved cb l r t) snapshot (listeners (references ?w r)))
       (resolved_pass cb r t (getType ?w r) snapshot) ?w"
    by (rule Cons.IH)
  also have "\<dots> = set_listeners r
       (listeners_after (\<lambda>l. onTypeReferenceResolved cb l r t) (l # snapshot) (listeners (references w r)))
       (resolved_pass cb r t (getType w r) (l # snapshot)) w"
    by (simp add: call_resolved_eq listeners_after_def resolved_pass_def)
  finally show ?case .
qed

lemma invalidated_fold_eq:
  "fold (\<lambda>l w'. call_onTypeReferenceInvalidated cb r (resolvedType (references w' r)) l w') snapshot w =
     set_listeners r
       (listeners_after (\<lambda>l. onTypeReferenceInvalidated cb l r (getType w r)) snapshot
          (listeners (references w r)))
       (invalidated_pass cb r (getType w r) snapshot) w"
proof (induction snapshot arbitrary: w)
  case Nil
  show ?case by (simp add: listeners_after_def invalidated_pass_def set_listeners_same)
next
  case (Cons l snapshot)
  let ?f = "\<lambda>l w'. call_onTypeReferenceInvalidated cb r (resolvedType (references w' r)) l w'"
  let ?w = "call_onTypeReferenceInvalidated cb r (getType w r) l w"
  have "fold ?f (l # snapshot) w = fold ?f snapshot ?w"
    by (simp add: getType_def)
  also have "\<dots> = set_listeners r
       (listeners_after (\<lambda>l. onTypeReferenceInvalidated cb l r (getType ?w r)) snapshot
          (listeners (references ?w r)))
       (invalidated_pass cb r (getType ?w r) snapshot) ?w"
    by (rule Cons.IH)
  also have "\<dots> = set_listeners r
       (listeners_after (\<lambda>l. onTypeReferenceInvalidated cb l r (getType w r)) (l # snapshot)
          (listeners (references w r)))
       (invalidated_pass cb r (getType w r) (l # snapshot)) w"
    by (simp add: call_invalidated_eq listeners_after_def invalidated_pass_def)
  finally show ?case .
qed

lemmas prims =
  update_reference_def stopResolving_def graph_addListener_def graph_removeListener_def
  inference_addListener_def inference_removeListener_def getType_def

lemma resolve_already:
  "getType w r = Some t \<Longrightarrow> resolve cb r w = (ALREADY_RESOLVED, w)"
  by (simp add: resolve_def getType_def)

lemma resolve_failed:
  "getType w r = None \<Longrightarrow> tryToResolve w (selector (references w r)) = None \<Longrightarrow>
   resolve cb r w = (RESOLVING_FAILED, w)"
  by (simp add: resolve_def getType_def)

lemma resolve_success:
  "getType w r = None \<Longrightarrow> tryToResolve w (selector (references w r)) = Some t \<Longrightarrow>
   resolve cb r w =
     (SUCCESSFULLY_RESOLVED,
      set_listeners r
        (listeners_after (\<lambda>l. onTypeReferenceResolved cb l r t) (listeners (references w r))
           (listeners (references w r)))
        (resolved_pass cb r t (Some t) (listeners (references w r)))
        (resolved_state r t w))"
  by (simp add: resolve_def resolved_fold_eq resolved_state_def Let_def prims)

lemma count_list_remove1:
  "count_list (remove1 a xs) b =
     (if a = b \<and> a \<in> set xs then count_list xs b - 1 else count_list xs b)"
  by (induction xs) auto

lemma subscription_count_set_listeners [simp]:
  "subscription_count (set_listeners r ls evs w) x = subscription_count w x"
  by (simp add: subscription_count_def)

lemma subscription_count_resolved_state:
  "subscription_count w x \<Longrightarrow> getType w r = None \<Longrightarrow> subscription_count (resolved_state r t w) x"
  by (auto simp add: subscription_count_def resolved_state_def prims count_list_remove1
        count_list_0_iff)

lemma subscription_count_resolve:
  assumes "subscription_count w x"
  shows "subscription_count (snd (resolve cb r w)) x"
proof (cases "getType w r")
  case (Some t)
  then show ?thesis using assms by (simp add: resolve_already)
next
  case None
  show ?thesis
  proof (cases "tryToResolve w (selector (references w r))")
    case None
    with \<open>getType w r = None\<close> assms show ?thesis by (simp add: resolve_failed)
  next
    case (Some t)
    with \<open>getType w r = None\<close> assms show ?thesis
      by (simp add: resolve_success subscription_count_resolved_state)
  qed
qed

lemma subscription_count_startResolving:
  assumes "subscription_count w x" and "x = r \<longrightarrow> getType w r \<noteq> None"
  shows "subscription_count (startResolving cb r w) x"
proof -
  let ?w = "inference_addListener r (graph_addListener r
              (update_reference r (\<lambda>x. x\<lparr>resolvedType := None\<rparr>) w))"
  have "subscription_count ?w x"
    using assms by (auto simp add: subscription_count_def prims)
  then show ?thesis
    unfolding startResolving_def by (rule subscription_count_resolve)
qed

lemma subscription_count_other:
  assumes "subscription_count w x" and "x \<noteq> r"
  shows "subscription_count (update_reference r f w) x"
    and "subscription_count (graph_addListener r w) x"
    and "subscription_count (graph_removeListener r w) x"
    and "subscription_count (inference_addListener r w) x"
    and "subscription_count (inference_removeListener r w) x"
    and "subscription_count (w\<lparr>references := (references w)(r := y)\<rparr>) x"
  using assms by (simp_all add: subscription_count_def prims count_list_remove1)

lemma subscription_count_nodes [simp]:
  "subscription_count (w\<lparr>graph_nodes := m\<rparr>) x = subscription_count w x"
  "subscription_count (w\<lparr>inference_inferType := i\<rparr>) x = subscription_count w x"
  by (simp_all add: subscription_count_def getType_def)

lemma subscription_count_listeners:
  "subscription_count (pushListener r l w) x = subscription_count w x"
  "subscription_count (removeListener r l w) x = subscription_count w x"
  by (auto simp add: subscription_count_def pushListener_def removeListener_def prims)

lemma subscription_count_addListener:
  "subscription_count w x \<Longrightarrow> subscription_count (addListener cb r l inform w) x"
  by (simp add: addListener_def Let_def call_resolved_eq call_invalidated_eq
        subscription_count_listeners split: option.splits)

lemma subscription_count_removedType:
  assumes "subscription_count w x"
  shows "subscription_count (removedType cb r t key w) x"
proof (cases "Some t = resolvedType (references w r)")
  case False
  then show ?thesis using assms by (simp add: removedType_def)
next
  case True
  have "getType w r \<noteq> None" by (simp add: getType_def True [symmetric])
  then show ?thesis
    using assms True
    by (simp add: removedType_def invalidated_fold_eq subscription_count_startResolving)
qed

lemma subscription_count_construct_other:
  "subscription_count w x \<Longrightarrow> x \<noteq> r \<Longrightarrow> subscription_count (construct cb r sel w) x"
  unfolding construct_def
  by (rule subscription_count_startResolving) (simp_all add: subscription_count_other)

lemma subscription_count_construct:
  assumes "r \<notin> set (graph_listeners w)" and "r \<notin> set (inference_listeners w)"
  shows "subscription_count (construct cb r sel w) r"
proof -
  let ?w = "w\<lparr>references := (references w)(r := \<lparr>selector = sel, resolvedType = None, listeners = []\<rparr>)\<rparr>"
  let ?v = "inference_addListener r (graph_addListener r
              (update_reference r (\<lambda>x. x\<lparr>resolvedType := None\<rparr>) ?w))"
  have "subscription_count ?v r"
    using assms by (simp add: subscription_count_def prims count_list_0_iff)
  then show ?thesis
    unfolding construct_def startResolving_def by (rule subscription_count_resolve)
qed

lemma subscription_count_deconstruct_other:
  "subscription_count w x \<Longrightarrow> x \<noteq> r \<Longrightarrow> subscription_count (deconstruct r w) x"
  by (simp add: deconstruct_def stopResolving_def subscription_count_other)

lemma subscription_count_deliver:
  "subscription_count w x \<Longrightarrow> subscription_count (deliver cb r n w) x"
  by (cases n)
     (simp_all add: addedType_def addedEdge_def removedEdge_def addedInferenceRule_def
        removedInferenceRule_def subscription_count_resolve subscription_count_removedType)

lemma subscription_count_fold:
  assumes "\<And>r v. subscription_count v x \<Longrightarrow> subscription_count (f r v) x"
      and "subscription_count w x"
  shows "subscription_count (fold f rs w) x"
  using assms(2) by (induction rs arbitrary: w) (simp_all add: assms(1))

lemma subscription_count_step:
  assumes "subscription_count w x" and "\<not> ends_life x op"
  shows "subscription_count (step cb op w) x"
proof (cases op)
  case (OpConstruct r sel)
  with assms show ?thesis by (simp add: subscription_count_construct_other)
next
  case (OpDeconstruct r)
  with assms show ?thesis by (simp add: subscription_count_deconstruct_other)
next
  case (OpAddListener r l inform)
  with assms show ?thesis by (simp add: subscription_count_addListener)
next
  case (OpRemoveListener r l)
  with assms show ?thesis by (simp add: subscription_count_listeners)
next
  case (OpDeliver r n)
  with assms show ?thesis by (simp add: subscription_count_deliver)
next
  case (OpGraphAddNode t key)
  with assms show ?thesis
    by (simp add: graph_addNode_def Let_def addedType_def subscription_count_fold
          subscription_count_resolve)
next
  case (OpGraphRemoveNode t key)
  with assms show ?thesis
    by (simp add: graph_removeNode_def Let_def subscription_count_fold
          subscription_count_removedType)
next
  case (OpGraphAddEdge e)
  with assms show ?thesis
    by (simp add: graph_addEdge_def addedEdge_def subscription_count_fold)
next
  case (OpGraphRemoveEdge e)
  with assms show ?thesis
    by (simp add: graph_removeEdge_def removedEdge_def subscription_count_fold)
next
  case (OpAddInferenceRule rule b)
  with assms show ?thesis
    by (simp add: inference_addInferenceRule_def Let_def addedInferenceRule_def
          subscription_count_fold subscription_count_resolve)
next
  case (OpRemoveInferenceRule rule b)
  with assms show ?thesis
    by (simp add: inference_removeInferenceRule_def Let_def removedInferenceRule_def
          subscription_count_fold)
qed

lemma subscription_count_run:
  assumes "subscription_count w x" and "\<forall>op \<in> set ops. \<not> ends_life x op"
  shows "subscription_count (run cb ops w) x"
  using assms unfolding run_def
  by (induction ops arbitrary: w) (simp_all add: subscription_count_step)

lemma in_set_count_list: "x \<in> set xs \<longleftrightarrow> 0 < count_list xs x"
  using count_list_0_iff [of xs x] by auto

lemma subscription_count_cases:
  assumes "subscription_count w r"
  shows "(getType w r = None \<longrightarrow> subscribed w r) \<and> (getType w r \<noteq> None \<longrightarrow> unsubscribed w r)"
  using assms
  by (simp add: subscription_count_def subscribed_def unsubscribed_def in_set_count_list)

section \<open>Operations that do not concern a reference\<close>

lemma untouched_refl [simp]: "untouched r w w"
  by (simp add: untouched_def)

lemma untouched_trans [trans]:
  "untouched r w v \<Longrightarrow> untouched r v u \<Longrightarrow> untouched r w u"
  by (simp add: untouched_def)

lemma notifications_append [simp]:
  "notifications r (xs @ ys) = notifications r xs @ notifications r ys"
  by (simp add: notifications_def)

lemma notifications_simps [simp]:
  "notifications r [] = []"
  "notifications r (Resolved q l t # es) = (if q = r then Resolved q l t # notifications r es else notifications r es)"
  "notifications r (Invalidated q l p # es) = (if q = r then Invalidated q l p # notifications r es else notifications r es)"
  "notifications r (GotType q l p # es) = notifications r es"
  by (simp_all add: notifications_def)

lemma notifications_action_events [simp]:
  "notifications r (action_events q l slot acts) = []"
  by (induction q l slot acts rule: action_events.induct) simp_all

lemma notifications_resolved_pass:
  "notifications r (resolved_pass cb q t slot ls) = (if q = r then map (\<lambda>l. Resolved r l t) ls else [])"
  by (induction ls) (auto simp add: resolved_pass_def)

lemma notifications_invalidated_pass:
  "notifications r (invalidated_pass cb q p ls) = (if q = r then map (\<lambda>l. Invalidated r l p) ls else [])"
  by (induction ls) (auto simp add: invalidated_pass_def)

lemma untouched_set_listeners:
  "q \<noteq> r \<Longrightarrow> notifications r evs = [] \<Longrightarrow> untouched r w (set_listeners q ls evs w)"
  by (simp add: untouched_def)

lemma untouched_prims:
  assumes "q \<noteq> r"
  shows "untouched r w (update_reference q f w)"
    and "untouched r w (graph_addListener q w)"
    and "untouched r w (graph_removeListener q w)"
    and "untouched r w (inference_addListener q w)"
    and "untouched r w (inference_removeListener q w)"
    and "untouched r w (w\<lparr>references := (references w)(q := y)\<rparr>)"
    and "untouched r w (pushListener q l w)"
    and "untouched r w (removeListener q l w)"
  using assms
  by (simp_all add: untouched_def prims pushListener_def removeListener_def count_list_remove1)

lemma untouched_fields [simp]:
  "untouched r w (w\<lparr>graph_nodes := m\<rparr>)"
  "untouched r w (w\<lparr>inference_inferType := i\<rparr>)"
  by (simp_all add: untouched_def)

lemma untouched_resolved_state: "q \<noteq> r \<Longrightarrow> untouched r w (resolved_state q t w)"
  by (simp add: untouched_def resolved_state_def prims count_list_remove1)

lemma untouched_resolve:
  assumes "q \<noteq> r"
  shows "untouched r w (snd (resolve cb q w))"
proof (cases "getType w q")
  case (Some t)
  then show ?thesis by (simp add: resolve_already)
next
  case None
  show ?thesis
  proof (cases "tryToResolve w (selector (references w q))")
    case None
    with \<open>getType w q = None\<close> show ?thesis by (simp add: resolve_failed)
  next
    case (Some t)
    have "untouched r (resolved_state q t w)
            (set_listeners q
               (listeners_after (\<lambda>l. onTypeReferenceResolved cb l q t) (listeners (references w q))
                  (listeners (references w q)))
               (resolved_pass cb q t (Some t) (listeners (references w q)))
               (resolved_state q t w))"
      using assms by (intro untouched_set_listeners) (simp_all add: notifications_resolved_pass)
    with untouched_resolved_state [OF assms, of w t]
    have "untouched r w
            (set_listeners q
               (listeners_after (\<lambda>l. onTypeReferenceResolved cb l q t) (listeners (references w q))
                  (listeners (references w q)))
               (resolved_pass cb q t (Some t) (listeners (references w q)))
               (resolved_state q t w))"
      by (rule untouched_trans)
    then show ?thesis
      using Some \<open>getType w q = None\<close> by (simp add: resolve_success)
  qed
qed

lemma untouched_startResolving:
  assumes "q \<noteq> r"
  shows "untouched r w (startResolving cb q w)"
proof -
  let ?w1 = "update_reference q (\<lambda>x. x\<lparr>resolvedType := None\<rparr>) w"
  let ?w2 = "graph_addListener q ?w1"
  let ?w3 = "inference_addListener q ?w2"
  have "untouched r w ?w1"
    using assms by (rule untouched_prims)
  also have "untouched r ?w1 ?w2"
    using assms by (rule untouched_prims)
  also have "untouched r ?w2 ?w3"
    using assms by (rule untouched_prims)
  also have "untouched r ?w3 (snd (resolve cb q ?w3))"
    using assms by (rule untouched_resolve)
  finally show ?thesis
    unfolding startResolving_def .
qed

lemma untouched_removedType:
  assumes "q \<noteq> r"
  shows "untouched r w (removedType cb q t key w)"
proof (cases "Some t = resolvedType (references w q)")
  case False
  then show ?thesis by (simp add: removedType_def)
next
  case True
  let ?v = "set_listeners q
       (listeners_after (\<lambda>l. onTypeReferenceInvalidated cb l q (getType w q)) (listeners (references w q))
          (listeners (references w q)))
       (invalidated_pass cb q (getType w q) (listeners (references w q))) w"
  have "untouched r w ?v"
    using assms by (intro untouched_set_listeners) (simp_all add: notifications_invalidated_pass)
  also have "untouched r ?v (startResolving cb q ?v)"
    using assms by (rule untouched_startResolving)
  finally show ?thesis
    using True by (simp add: removedType_def invalidated_fold_eq)
qed

lemma untouched_construct: "q \<noteq> r \<Longrightarrow> untouched r w (construct cb q sel w)"
  unfolding construct_def
  by (rule untouched_trans [OF untouched_prims(6) untouched_startResolving])

lemma untouched_deconstruct:
  assumes "q \<noteq> r"
  shows "untouched r w (deconstruct q w)"
proof -
  have "untouched r w (graph_removeListener q w)"
    using assms by (rule untouched_prims)
  also have "untouched r (graph_removeListener q w) (stopResolving q w)"
    unfolding stopResolving_def using assms by (rule untouched_prims)
  also have "untouched r (stopResolving q w) (deconstruct q w)"
    unfolding deconstruct_def using assms by (rule untouched_prims)
  finally show ?thesis .
qed

lemma untouched_addListener:
  assumes "q \<noteq> r"
  shows "untouched r w (addListener cb q l inform w)"
proof -
  let ?w = "pushListener q l w"
  have p: "untouched r w ?w"
    using assms by (rule untouched_prims)
  have a: "untouched r ?w (call_onTypeReferenceResolved cb q t l ?w)" for t
    using assms by (simp add: call_resolved_eq untouched_set_listeners)
  have b: "untouched r ?w (call_onTypeReferenceInvalidated cb q None l ?w)"
    using assms by (simp add: call_invalidated_eq untouched_set_listeners)
  show ?thesis
  proof (cases inform)
    case False
    with p show ?thesis by (simp add: addListener_def)
  next
    case True
    show ?thesis
    proof (cases "resolvedType (references ?w q)")
      case None
      with True untouched_trans [OF p b] show ?thesis by (simp add: addListener_def)
    next
      case (Some t)
      with True untouched_trans [OF p a [of t]] show ?thesis by (simp add: addListener_def)
    qed
  qed
qed

lemma untouched_deliver: "q \<noteq> r \<Longrightarrow> untouched r w (deliver cb q n w)"
  by (cases n)
     (simp_all add: addedType_def addedEdge_def removedEdge_def addedInferenceRule_def
        removedInferenceRule_def untouched_resolve untouched_removedType)

lemma untouched_fold:
  assumes "\<And>q v. q \<in> set qs \<Longrightarrow> untouched r v (f q v)"
  shows "untouched r w (fold f qs w)"
  using assms
proof (induction qs arbitrary: w)
  case Nil
  show ?case by simp
next
  case (Cons q qs)
  have "untouched r w (f q w)" by (simp add: Cons.prems)
  also have "untouched r (f q w) (fold f qs (f q w))"
    by (rule Cons.IH) (simp add: Cons.prems)
  finally show ?case by simp
qed

lemma untouched_unsubscribed:
  "untouched r w w' \<Longrightarrow> unsubscribed w r \<Longrightarrow> unsubscribed w' r"
  by (simp add: untouched_def unsubscribed_def in_set_count_list)

lemma untouched_step:
  assumes "\<not> addressed_to r op" and "unsubscribed w r"
  shows "untouched r w (step cb op w)"
proof -
  have g: "q \<noteq> r" if "q \<in> set (graph_listeners w)" for q
    using that assms(2) by (auto simp add: unsubscribed_def)
  have i: "q \<noteq> r" if "q \<in> set (inference_listeners w)" for q
    using that assms(2) by (auto simp add: unsubscribed_def)
  show ?thesis
  proof (cases op)
    case (OpConstruct q sel)
    with assms show ?thesis by (simp add: untouched_construct)
  next
    case (OpDeconstruct q)
    with assms show ?thesis by (simp add: untouched_deconstruct)
  next
    case (OpAddListener q l inform)
    with assms show ?thesis by (simp add: untouched_addListener)
  next
    case (OpRemoveListener q l)
    with assms show ?thesis by (simp add: untouched_prims)
  next
    case (OpDeliver q n)
    with assms show ?thesis by (simp add: untouched_deliver)
  next
    case (OpGraphAddNode t key)
    let ?w = "w\<lparr>graph_nodes := (graph_nodes w)(key \<mapsto> t)\<rparr>"
    have "untouched r ?w (fold (\<lambda>q. addedType cb q t key) (graph_listeners w) ?w)"
      by (rule untouched_fold) (simp add: addedType_def untouched_resolve g)
    then show ?thesis
      using OpGraphAddNode by (simp add: graph_addNode_def Let_def untouched_def)
  next
    case (OpGraphRemoveNode t key)
    let ?w = "w\<lparr>graph_nodes := (graph_nodes w)(key := None)\<rparr>"
    have "untouched r ?w (fold (\<lambda>q. removedType cb q t key) (graph_listeners w) ?w)"
      by (rule untouched_fold) (simp add: untouched_removedType g)
    then show ?thesis
      using OpGraphRemoveNode by (simp add: graph_removeNode_def Let_def untouched_def)
  next
    case (OpGraphAddEdge e)
    have "untouched r w (fold (\<lambda>q. addedEdge q e) (graph_listeners w) w)"
      by (rule untouched_fold) (simp add: addedEdge_def)
    then show ?thesis using OpGraphAddEdge by (simp add: graph_addEdge_def)
  next
    case (OpGraphRemoveEdge e)
    have "untouched r w (fold (\<lambda>q. removedEdge q e) (graph_listeners w) w)"
      by (rule untouched_fold) (simp add: removedEdge_def)
    then show ?thesis using OpGraphRemoveEdge by (simp add: graph_removeEdge_def)
  next
    case (OpAddInferenceRule rule b)
    let ?w = "w\<lparr>inference_inferType := rule\<rparr>"
    have "untouched r ?w (fold (\<lambda>q. addedInferenceRule cb q rule b) (inference_listeners w) ?w)"
      by (rule untouched_fold) (simp add: addedInferenceRule_def untouched_resolve i)
    then show ?thesis
      using OpAddInferenceRule by (simp add: inference_addInferenceRule_def Let_def untouched_def)
  next
    case (OpRemoveInferenceRule rule b)
    let ?w = "w\<lparr>inference_inferType := rule\<rparr>"
    have "untouched r ?w (fold (\<lambda>q. removedInferenceRule q rule b) (inference_listeners w) ?w)"
      by (rule untouched_fold) (simp add: removedInferenceRule_def)
    then show ?thesis
      using OpRemoveInferenceRule by (simp add: inference_removeInferenceRule_def Let_def untouched_def)
  qed
qed

lemma untouched_run:
  assumes "\<forall>op \<in> set ops. \<not> addressed_to r op" and "unsubscribed w r"
  shows "untouched r w (run cb ops w)"
  using assms unfolding run_def
proof (induction ops arbitrary: w)
  case Nil
  show ?case by simp
next
  case (Cons op ops)
  have s: "untouched r w (step cb op w)"
    using Cons.prems by (simp add: untouched_step)
  then have "unsubscribed (step cb op w) r"
    using Cons.prems(2) by (rule untouched_unsubscribed)
  then have "untouched r (step cb op w) (fold (step cb) ops (step cb op w))"
    using Cons.prems(1) by (intro Cons.IH) simp_all
  with s have "untouched r w (fold (step cb) ops (step cb op w))"
    by (rule untouched_trans)
  then show ?case by simp
qed

section \<open>Validation: the relation checks and the collector\<close>

text \<open>
  C5. When both sides of a relation check resolve to Types, the check ends in one
  of four ways: not negated and a mismatch, one problem whose sub-problems are the
  mismatch; not negated and no mismatch, no problem; negated and no mismatch, one
  problem without sub-problems; negated and a mismatch, no problem. So
  \<open>ensureNodeIsAssignable\<close> on a mismatching pair gives one problem with
  sub-problems, and \<open>ensureNodeHasNotType\<close> on a value of exactly the forbidden
  type (which the equality strategy finds equal to itself) gives one problem
  without sub-problems.
\<close>

theorem relation_check_outcomes:
  assumes "typeOrInfer typir dn = InferredType actualType"
      and "typeOrInfer typir ex = InferredType expectedType"
  shows "(\<not> negated \<and> createTypeCheckStrategy typir strategy actualType expectedType = Some mismatch \<longrightarrow>
            (\<exists>p. ensureNodeRelatedWithType typir (Some dn) (Some ex) strategy negated msg = [p]
               \<and> subProblems p = [mismatch])) \<and>
         (\<not> negated \<and> createTypeCheckStrategy typir strategy actualType expectedType = None \<longrightarrow>
            ensureNodeRelatedWithType typir (Some dn) (Some ex) strategy negated msg = []) \<and>
         (negated \<and> createTypeCheckStrategy typir strategy actualType expectedType = None \<longrightarrow>
            (\<exists>p. ensureNodeRelatedWithType typir (Some dn) (Some ex) strategy negated msg = [p]
               \<and> subProblems p = [])) \<and>
         (negated \<and> createTypeCheckStrategy typir strategy actualType expectedType = Some mismatch \<longrightarrow>
            ensureNodeRelatedWithType typir (Some dn) (Some ex) strategy negated msg = []) \<and>
         (createTypeCheckStrategy typir ''ASSIGNABLE_TYPE'' actualType expectedType = Some mismatch \<longrightarrow>
            (\<exists>p. ensureNodeIsAssignable typir (Some dn) (Some ex) msg = [p] \<and> subProblems p \<noteq> [])) \<and>
         (actualType = expectedType
            \<and> createTypeCheckStrategy typir ''EQUAL_TYPE'' actualType expectedType = None \<longrightarrow>
            (\<exists>p. ensureNodeHasNotType typir (Some dn) (Some ex) msg = [p] \<and> subProblems p = []))"
  using assms
  by (auto simp add: ensureNodeRelatedWithType_def ensureNodeIsAssignable_def
        ensureNodeHasNotType_def makeProblem_def)

theorem relation_check_outcomes_witness:
  "typeOrInfer world0 (IsDomain 0) = InferredType typeNumber \<and>
   typeOrInfer world0 (IsType typeString) = InferredType typeString \<and>
   typeOrInfer world0 (IsType typeNumber) = InferredType typeNumber \<and>
   createTypeCheckStrategy world0 ''ASSIGNABLE_TYPE'' typeNumber typeString
     = Some (TypirProblem ''mismatch'') \<and>
   createTypeCheckStrategy world0 ''EQUAL_TYPE'' typeNumber typeNumber = None \<and>
   (\<exists>p. ensureNodeRelatedWithType world0 (Some (IsDomain 0)) (Some (IsType typeString))
           ''ASSIGNABLE_TYPE'' False no_details = [p] \<and> subProblems p = [TypirProblem ''mismatch'']) \<and>
   ensureNodeRelatedWithType world0 (Some (IsDomain 0)) (Some (IsType typeString))
           ''ASSIGNABLE_TYPE'' True no_details = [] \<and>
   (\<exists>p. ensureNodeIsAssignable world0 (Some (IsDomain 0)) (Some (IsType typeString)) no_details = [p]
        \<and> subProblems p \<noteq> []) \<and>
   ensureNodeRelatedWithType world0 (Some (IsDomain 0)) (Some (IsType typeNumber))
           ''EQUAL_TYPE'' False no_details = [] \<and>
   (\<exists>p. ensureNodeHasNotType world0 (Some (IsDomain 0)) (Some (IsType typeNumber)) no_details = [p]
        \<and> subProblems p = [])"
proof -
  have a: "typeOrInfer world0 (IsDomain 0) = InferredType typeNumber"
    by (simp add: typeOrInfer_def world0_def)
  have e: "typeOrInfer world0 (IsType typeString) = InferredType typeString"
    by (simp add: typeOrInfer_def)
  have e': "typeOrInfer world0 (IsType typeNumber) = InferredType typeNumber"
    by (simp add: typeOrInfer_def)
  have m: "createTypeCheckStrategy world0 ''ASSIGNABLE_TYPE'' typeNumber typeString
             = Some (TypirProblem ''mismatch'')"
    by (simp add: world0_def typeNumber_def typeString_def)
  have n: "createTypeCheckStrategy world0 ''EQUAL_TYPE'' typeNumber typeNumber = None"
    by (simp add: world0_def)
  show ?thesis
    using a e e' m n
      relation_check_outcomes [OF a e, of False "''ASSIGNABLE_TYPE''" "TypirProblem ''mismatch''" no_details]
      relation_check_outcomes [OF a e, of True "''ASSIGNABLE_TYPE''" "TypirProblem ''mismatch''" no_details]
      relation_check_outcomes [OF a e', of False "''EQUAL_TYPE''" "TypirProblem ''mismatch''" no_details]
    by simp
qed

text \<open>
  C6. Whatever the strategy and the negation flag, a relation check returns the
  empty list when the domain value or the expected side is \<^verbatim>\<open>undefined\<close>, and
  when one of the two sides is neither a Type nor inferred to a Type; so do the
  three wrappers. The checks have no failing branch: their result is always a
  list.
\<close>

theorem unresolved_side_yields_nothing:
  assumes "domainNode = None \<or> expected = None
           \<or> (\<exists>dn ps. domainNode = Some dn \<and> typeOrInfer typir dn = InferenceProblems ps)
           \<or> (\<exists>ex ps. expected = Some ex \<and> typeOrInfer typir ex = InferenceProblems ps)"
  shows "ensureNodeRelatedWithType typir domainNode expected strategy negated msg = [] \<and>
         ensureNodeIsAssignable typir domainNode expected msg = [] \<and>
         ensureNodeIsEquals typir domainNode expected msg = [] \<and>
         ensureNodeHasNotType typir domainNode expected msg = []"
  using assms
  by (auto simp add: ensureNodeRelatedWithType_def ensureNodeIsAssignable_def ensureNodeIsEquals_def
        ensureNodeHasNotType_def split: option.splits inference_result.splits)

theorem unresolved_side_yields_nothing_witness:
  "typeOrInfer world0 (IsDomain 5) = InferenceProblems [''no rule''] \<and>
   ensureNodeRelatedWithType world0 (Some (IsDomain 5)) (Some (IsType typeString))
     ''SUB_TYPE'' True no_details = [] \<and>
   ensureNodeIsAssignable world0 (Some (IsDomain 5)) (Some (IsType typeString)) no_details = [] \<and>
   ensureNodeIsEquals world0 (Some (IsType typeString)) (Some (IsDomain 5)) no_details = [] \<and>
   ensureNodeHasNotType world0 None (Some (IsType typeString)) no_details = []"
proof -
  have p: "typeOrInfer world0 (IsDomain 5) = InferenceProblems [''no rule'']"
    by (simp add: typeOrInfer_def world0_def)
  show ?thesis
    using p
      unresolved_side_yields_nothing
        [of "Some (IsDomain 5)" "Some (IsType typeString)" world0 "''SUB_TYPE''" True no_details]
      unresolved_side_yields_nothing
        [of "Some (IsType typeString)" "Some (IsDomain 5)" world0 "''SUB_TYPE''" True no_details]
      unresolved_side_yields_nothing
        [of None "Some (IsType typeString)" world0 "''SUB_TYPE''" True no_details]
    by simp
qed

lemma validate_loop_append:
  "validate_loop rules v typir acc = acc @ concat (map (\<lambda>rule. rule v typir) rules)"
  by (induction rules arbitrary: acc) simp_all

text \<open>
  C7. \<open>validate\<close> returns the concatenation, in registration order, of what each
  registered rule returns for the value; with no rule registered it returns the
  empty list. Each rule is applied to the value and the services only, never to
  the problems of the rules before it. Rules registered later come after the
  ones registered before.
\<close>

theorem validate_is_concatenation:
  "validate typir rules v = concat (map (\<lambda>rule. rule v typir) rules) \<and>
   validate typir [] v = [] \<and>
   validate typir (addValidationRules rules rules2) v
     = validate typir rules v @ validate typir rules2 v"
  by (simp add: validate_def validate_loop_append addValidationRules_def)

section \<open>The subscriptions of a live reference\<close>

text \<open>
  C4. A reference is created at an address that is in neither registry. After
  any run of operations that neither deconstructs it nor creates a new reference
  at its address (calls of its own methods, the notification handlers among
  them, operations on other references and mutations of the graph and of the
  collector), it is subscribed to the Type Graph and to the Inference Collector
  while \<open>getType\<close> returns nothing, and subscribed to neither while \<open>getType\<close>
  returns a Type.
\<close>

theorem subscribed_iff_unresolved:
  assumes "r \<notin> set (graph_listeners w)" and "r \<notin> set (inference_listeners w)"
      and "\<forall>op \<in> set ops. \<not> ends_life r op"
  shows "(getType (run cb ops (construct cb r sel w)) r = None
            \<longrightarrow> subscribed (run cb ops (construct cb r sel w)) r) \<and>
         (getType (run cb ops (construct cb r sel w)) r \<noteq> None
            \<longrightarrow> unsubscribed (run cb ops (construct cb r sel w)) r)"
  using assms
  by (intro subscription_count_cases subscription_count_run subscription_count_construct)

theorem subscribed_iff_unresolved_witness:
  "0 \<notin> set (graph_listeners world0) \<and> 0 \<notin> set (inference_listeners world0) \<and>
   list_all (\<lambda>op. \<not> ends_life 0 op) ops0 \<and>
   getType (run callbacks0 [] (construct callbacks0 0 (SelIdentifier ''A'') world0)) 0 = None \<and>
   subscribed (run callbacks0 [] (construct callbacks0 0 (SelIdentifier ''A'') world0)) 0 \<and>
   getType (run callbacks0 ops0 (construct callbacks0 0 (SelIdentifier ''A'') world0)) 0 = Some typeA \<and>
   unsubscribed (run callbacks0 ops0 (construct callbacks0 0 (SelIdentifier ''A'') world0)) 0"
proof -
  have f1: "0 \<notin> set (graph_listeners world0)" and f2: "0 \<notin> set (inference_listeners world0)"
    by (simp_all add: world0_def)
  have l: "\<forall>op \<in> set ops0. \<not> ends_life 0 op"
    by (simp add: ops0_def)
  have l': "list_all (\<lambda>op. \<not> ends_life 0 op) ops0"
    by (simp add: ops0_def)
  have g0: "getType (run callbacks0 [] (construct callbacks0 0 (SelIdentifier ''A'') world0)) 0 = None"
    by code_simp
  have g1: "getType (run callbacks0 ops0 (construct callbacks0 0 (SelIdentifier ''A'') world0)) 0
              = Some typeA"
    by code_simp
  show ?thesis
    using f1 f2 l' g0 g1
      subscribed_iff_unresolved [OF f1 f2 l, of callbacks0 "SelIdentifier ''A''"]
      subscribed_iff_unresolved [OF f1 f2, of "[]" callbacks0 "SelIdentifier ''A''"]
    by simp
qed

section \<open>Deconstruction\<close>

lemma listeners_update_triv: "listeners x = ls \<Longrightarrow> x\<lparr>listeners := ls\<rparr> = x"
  by (cases x) simp

lemma deconstruct_eq:
  "deconstruct r w =
     w\<lparr>graph_listeners := remove1 r (graph_listeners w),
       inference_listeners := remove1 r (inference_listeners w),
       references := (references w)(r := (references w r)\<lparr>listeners := []\<rparr>)\<rparr>"
  by (simp add: deconstruct_def prims)

lemma deconstruct_unsubscribed:
  assumes "subscription_count w r"
  shows "unsubscribed (deconstruct r w) r"
  using assms
  by (simp add: deconstruct_eq unsubscribed_def subscription_count_def in_set_count_list
        count_list_remove1 split: if_splits)

lemma deconstruct_idem:
  assumes "unsubscribed d r" and "listeners (references d r) = []"
  shows "deconstruct r d = d"
  using assms
  by (simp add: deconstruct_eq unsubscribed_def remove1_idem listeners_update_triv)

text \<open>
  C8. \<open>deconstruct\<close> on a live reference, resolved or not, leaves it in neither
  registry and without listeners, and a second \<open>deconstruct\<close> changes nothing.
  From then on, whatever is done to the graph, to the collector and to other
  references (a Type added under the identifier the reference selects
  included), the reference stays as it is: it is never resolved, never
  subscribed again, and none of its listeners is called.
\<close>

theorem deconstruct_is_final:
  fixes cb :: callbacks and sel :: "'d selector" and w0 :: "'d world"
  assumes "r \<notin> set (graph_listeners w0)" and "r \<notin> set (inference_listeners w0)"
      and "\<forall>op \<in> set before. \<not> ends_life r op"
      and "\<forall>op \<in> set after. \<not> addressed_to r op"
  defines "w \<equiv> run cb before (construct cb r sel w0)"
  defines "d \<equiv> deconstruct r w"
  shows "unsubscribed d r \<and> listeners (references d r) = [] \<and> deconstruct r d = d \<and>
         unsubscribed (run cb after d) r \<and>
         references (run cb after d) r = references d r \<and>
         notifications r (trace (run cb after d)) = notifications r (trace w)"
proof -
  have "subscription_count w r"
    unfolding w_def using assms(1-3)
    by (intro subscription_count_run subscription_count_construct)
  then have u: "unsubscribed d r"
    unfolding d_def by (rule deconstruct_unsubscribed)
  have l: "listeners (references d r) = []"
    by (simp add: d_def deconstruct_eq)
  have i: "deconstruct r d = d"
    using u l by (rule deconstruct_idem)
  have "untouched r d (run cb after d)"
    using assms(4) u by (rule untouched_run)
  moreover have "trace d = trace w"
    by (simp add: d_def deconstruct_eq)
  ultimately show ?thesis
    using u l i by (simp add: untouched_def untouched_unsubscribed [of r d])
qed


theorem deconstruct_is_final_witness:
  "0 \<notin> set (graph_listeners world0) \<and> 0 \<notin> set (inference_listeners world0) \<and>
   list_all (\<lambda>op. \<not> ends_life 0 op) [OpAddListener 0 1 False :: nat operation] \<and>
   list_all (\<lambda>op. \<not> addressed_to 0 op) [OpGraphAddNode typeA ''A'' :: nat operation] \<and>
   getType (run callbacks0 [OpGraphAddNode typeA ''A'']
              (run callbacks0 [OpAddListener 0 1 False]
                 (construct callbacks0 0 (SelIdentifier ''A'') world0))) 0 = Some typeA \<and>
   unsubscribed (deconstruct 0 (run callbacks0 [OpAddListener 0 1 False]
                 (construct callbacks0 0 (SelIdentifier ''A'') world0))) 0 \<and>
   getType (run callbacks0 [OpGraphAddNode typeA ''A'']
              (deconstruct 0 (run callbacks0 [OpAddListener 0 1 False]
                 (construct callbacks0 0 (SelIdentifier ''A'') world0)))) 0 = None \<and>
   notifications 0 (trace (run callbacks0 [OpGraphAddNode typeA ''A'']
              (deconstruct 0 (run callbacks0 [OpAddListener 0 1 False]
                 (construct callbacks0 0 (SelIdentifier ''A'') world0))))) = []"
proof -
  have f1: "0 \<notin> set (graph_listeners world0)" and f2: "0 \<notin> set (inference_listeners world0)"
    by (simp_all add: world0_def)
  have b: "\<forall>op \<in> set [OpAddListener 0 1 False :: nat operation]. \<not> ends_life 0 op"
    by simp
  have a: "\<forall>op \<in> set [OpGraphAddNode typeA ''A'' :: nat operation]. \<not> addressed_to 0 op"
    by simp
  have g: "getType (run callbacks0 [OpGraphAddNode typeA ''A'']
              (run callbacks0 [OpAddListener 0 1 False]
                 (construct callbacks0 0 (SelIdentifier ''A'') world0))) 0 = Some typeA"
    by code_simp
  have d: "references (deconstruct 0 (run callbacks0 [OpAddListener 0 1 False]
                 (construct callbacks0 0 (SelIdentifier ''A'') world0))) 0
             = \<lparr>selector = SelIdentifier ''A'', resolvedType = None, listeners = []\<rparr>"
    by (simp add: run_def construct_def startResolving_def resolve_def deconstruct_eq
          addListener_def pushListener_def prims world0_def)
  have t: "notifications 0 (trace (run callbacks0 [OpAddListener 0 1 False]
                 (construct callbacks0 0 (SelIdentifier ''A'') world0))) = []"
    by (simp add: run_def construct_def startResolving_def resolve_def
          addListener_def pushListener_def prims world0_def)
  show ?thesis
    using f1 f2 g d t
      deconstruct_is_final [OF f1 f2 b a, of callbacks0 "SelIdentifier ''A''"]
    by (simp add: getType_def)
qed

lemma resolved_unsubscribed_step:
  assumes "unsubscribed w r" and "getType w r = Some t" and "\<not> bypasses_registry r op"
  shows "unsubscribed (step cb op w) r \<and> getType (step cb op w) r = Some t"
proof (cases "addressed_to r op")
  case False
  then have "untouched r w (step cb op w)"
    using assms(1) by (rule untouched_step)
  then show ?thesis
    using assms(1,2) by (simp add: untouched_unsubscribed [of r w] untouched_def getType_def)
next
  case True
  show ?thesis
  proof (cases op)
    case (OpDeconstruct q)
    with True assms(1,2) show ?thesis
      by (simp add: deconstruct_eq unsubscribed_def getType_def remove1_idem)
  next
    case (OpAddListener q l inform)
    with True assms(1,2) show ?thesis
      by (simp add: addListener_def Let_def call_resolved_eq call_invalidated_eq pushListener_def
            update_reference_def unsubscribed_def getType_def set_listeners_def
            split: option.splits)
  next
    case (OpRemoveListener q l)
    with True assms(1,2) show ?thesis
      by (simp add: removeListener_def update_reference_def unsubscribed_def getType_def)
  qed (use True assms(3) in simp_all)
qed

lemma resolved_unsubscribed_run:
  assumes "unsubscribed w r" and "getType w r = Some t"
      and "\<forall>op \<in> set ops. \<not> bypasses_registry r op"
  shows "unsubscribed (run cb ops w) r \<and> getType (run cb ops w) r = Some t"
  using assms unfolding run_def
proof (induction ops arbitrary: w)
  case Nil
  then show ?case by simp
next
  case (Cons op ops)
  have "unsubscribed (step cb op w) r \<and> getType (step cb op w) r = Some t"
    using Cons.prems by (intro resolved_unsubscribed_step) simp_all
  then show ?case
    using Cons.prems(3) Cons.IH [of "step cb op w"] by simp
qed

text \<open>
  C10. \<open>deconstruct\<close> on a resolved reference leaves the Type in place:
  \<open>getType\<close> returns it right after \<open>deconstruct\<close> and after any later run of
  operations (listeners added to or removed from the reference, further
  \<open>deconstruct\<close> calls, mutations of the graph and of the collector, operations on
  other references). \<open>deconstruct\<close> changes the two registries and the listener
  array of the reference and nothing else.
\<close>

theorem deconstruct_keeps_type:
  fixes cb :: callbacks and sel :: "'d selector" and w0 :: "'d world"
  assumes "r \<notin> set (graph_listeners w0)" and "r \<notin> set (inference_listeners w0)"
      and "\<forall>op \<in> set before. \<not> ends_life r op"
      and "\<forall>op \<in> set after. \<not> bypasses_registry r op"
  defines "w \<equiv> run cb before (construct cb r sel w0)"
  assumes "getType w r = Some t"
  shows "getType (deconstruct r w) r = Some t \<and>
         getType (run cb after (deconstruct r w)) r = Some t \<and>
         deconstruct r w =
           w\<lparr>graph_listeners := remove1 r (graph_listeners w),
             inference_listeners := remove1 r (inference_listeners w),
             references := (references w)(r := (references w r)\<lparr>listeners := []\<rparr>)\<rparr>"
proof -
  have "subscription_count w r"
    unfolding w_def using assms(1-3)
    by (intro subscription_count_run subscription_count_construct)
  then have u: "unsubscribed (deconstruct r w) r"
    by (rule deconstruct_unsubscribed)
  have g: "getType (deconstruct r w) r = Some t"
    using \<open>getType w r = Some t\<close> by (simp add: deconstruct_eq getType_def)
  from resolved_unsubscribed_run [OF u g assms(4)] g show ?thesis
    by (simp add: deconstruct_eq)
qed

theorem deconstruct_keeps_type_witness:
  "0 \<notin> set (graph_listeners world0) \<and> 0 \<notin> set (inference_listeners world0) \<and>
   list_all (\<lambda>op. \<not> ends_life 0 op) ops0 \<and>
   list_all (\<lambda>op. \<not> bypasses_registry 0 op)
     [OpGraphRemoveNode typeA ''A'', OpAddListener 0 5 True, OpGraphAddNode typeString ''A''] \<and>
   getType (run callbacks0 ops0 (construct callbacks0 0 (SelIdentifier ''A'') world0)) 0 = Some typeA \<and>
   getType (deconstruct 0 (run callbacks0 ops0 (construct callbacks0 0 (SelIdentifier ''A'') world0))) 0
     = Some typeA \<and>
   getType (run callbacks0
              [OpGraphRemoveNode typeA ''A'', OpAddListener 0 5 True, OpGraphAddNode typeString ''A'']
              (deconstruct 0 (run callbacks0 ops0 (construct callbacks0 0 (SelIdentifier ''A'') world0)))) 0
     = Some typeA"
proof -
  have f1: "0 \<notin> set (graph_listeners world0)" and f2: "0 \<notin> set (inference_listeners world0)"
    by (simp_all add: world0_def)
  have b: "\<forall>op \<in> set ops0. \<not> ends_life 0 op"
    by (simp add: ops0_def)
  have b': "list_all (\<lambda>op. \<not> ends_life 0 op) ops0"
    by (simp add: ops0_def)
  have a: "\<forall>op \<in> set [OpGraphRemoveNode typeA ''A'', OpAddListener 0 5 True,
             OpGraphAddNode typeString ''A'' :: nat operation]. \<not> bypasses_registry 0 op"
    by simp
  have g: "getType (run callbacks0 ops0 (construct callbacks0 0 (SelIdentifier ''A'') world0)) 0
             = Some typeA"
    by code_simp
  note kept = deconstruct_keeps_type [OF f1 f2 b a g]
  show ?thesis
    using f1 f2 b' g kept [THEN conjunct1] kept [THEN conjunct2, THEN conjunct1]
    by simp
qed

section \<open>Waiting for a Type and resolving when it is added\<close>

lemma graph_nodes_resolve [simp]: "graph_nodes (snd (resolve cb q w)) = graph_nodes w"
  by (simp add: resolve_def resolved_fold_eq Let_def prims split: option.splits)

lemma graph_nodes_startResolving [simp]: "graph_nodes (startResolving cb q w) = graph_nodes w"
  by (simp add: startResolving_def prims)

lemma graph_nodes_removedType [simp]: "graph_nodes (removedType cb q t key w) = graph_nodes w"
  by (simp add: removedType_def invalidated_fold_eq)

lemma graph_nodes_construct [simp]: "graph_nodes (construct cb q sel w) = graph_nodes w"
  by (simp add: construct_def)

lemma graph_nodes_deconstruct [simp]: "graph_nodes (deconstruct q w) = graph_nodes w"
  by (simp add: deconstruct_eq)

lemma graph_nodes_addListener [simp]: "graph_nodes (addListener cb q l inform w) = graph_nodes w"
  by (simp add: addListener_def Let_def call_resolved_eq call_invalidated_eq pushListener_def
        update_reference_def split: option.splits)

lemma graph_nodes_removeListener [simp]: "graph_nodes (removeListener q l w) = graph_nodes w"
  by (simp add: removeListener_def update_reference_def)

lemma graph_nodes_deliver [simp]: "graph_nodes (deliver cb q n w) = graph_nodes w"
  by (cases n)
     (simp_all add: addedType_def addedEdge_def removedEdge_def addedInferenceRule_def
        removedInferenceRule_def)

lemma graph_nodes_fold:
  assumes "\<And>q v. graph_nodes (f q v) = graph_nodes v"
  shows "graph_nodes (fold f qs w) = graph_nodes w"
  by (induction qs arbitrary: w) (simp_all add: assms)

lemma fold_ignore: "fold (\<lambda>q v. v) qs w = w"
  by (induction qs) simp_all

lemma graph_addEdge_id [simp]: "graph_addEdge e w = w"
  by (simp add: graph_addEdge_def addedEdge_def [abs_def] fold_ignore)

lemma graph_removeEdge_id [simp]: "graph_removeEdge e w = w"
  by (simp add: graph_removeEdge_def removedEdge_def [abs_def] fold_ignore)



text \<open>What each shape of selector yields, once the selector functions are called.\<close>

lemma tryToResolve_cases:
  "tryToResolve w s =
     (case final_selector s of
        SelType t \<Rightarrow> Some t
      | SelIdentifier k \<Rightarrow> graph_nodes w k
      | SelInitializer i \<Rightarrow> Some (getTypeInitial i)
      | SelReference q \<Rightarrow> getType w q
      | SelFunction f \<Rightarrow> None
      | SelKnown d \<Rightarrow>
          (case inference_inferType w d of InferredType t \<Rightarrow> Some t | InferenceProblems ps \<Rightarrow> None))"
  by (induction s) simp_all










section \<open>The selector of a reference never changes\<close>


lemma selector_resolve [simp]:
  "selector (references (snd (resolve cb q w)) r) = selector (references w r)"
  by (simp add: resolve_def resolved_fold_eq Let_def prims split: option.splits)

lemma selector_startResolving [simp]:
  "selector (references (startResolving cb q w) r) = selector (references w r)"
  by (simp add: startResolving_def) (simp add: prims)

lemma selector_removedType [simp]:
  "selector (references (removedType cb q t key w) r) = selector (references w r)"
  by (simp add: removedType_def invalidated_fold_eq)

lemma selector_addListener [simp]:
  "selector (references (addListener cb q l inform w) r) = selector (references w r)"
  by (simp add: addListener_def Let_def call_resolved_eq call_invalidated_eq pushListener_def
        update_reference_def split: option.splits)

lemma selector_removeListener [simp]:
  "selector (references (removeListener q l w) r) = selector (references w r)"
  by (simp add: removeListener_def update_reference_def)

lemma selector_deliver [simp]:
  "selector (references (deliver cb q n w) r) = selector (references w r)"
  by (cases n)
     (simp_all add: addedType_def addedEdge_def removedEdge_def addedInferenceRule_def
        removedInferenceRule_def)


lemma selector_deconstruct [simp]:
  "selector (references (deconstruct q w) r) = selector (references w r)"
  by (simp add: deconstruct_eq)



section \<open>A pass of \<open>addedType\<close> over the registry of the graph\<close>

lemma settled_refl [simp]: "settled w w"
  by (simp add: settled_def)

lemma settled_trans [trans]: "settled w v \<Longrightarrow> settled v u \<Longrightarrow> settled w u"
  by (auto simp add: settled_def)








section \<open>Invalidation\<close>

lemma action_events_are_observations:
  "e \<in> set (action_events r l slot acts) \<Longrightarrow> e = GotType r l slot"
  by (induction r l slot acts rule: action_events.induct) auto

lemma invalidated_pass_events:
  "e \<in> set (invalidated_pass cb r p ls) \<Longrightarrow> \<exists>l. e = Invalidated r l p \<or> e = GotType r l p"
  by (auto simp add: invalidated_pass_def dest: action_events_are_observations)

text \<open>
  C9. In the pass of \<open>onTypeReferenceInvalidated\<close> callbacks that \<open>removedType\<close>
  makes when it is called with the Type of the reference, the Type of the
  reference stays in place: after each callback of the pass \<open>getType\<close> still
  returns it, every listener is given it as the previous Type, and every
  \<open>getType\<close> call made by a callback of the pass returns it. The Type is
  cleared by \<open>startResolving\<close>, which runs on the world the whole pass has left.
\<close>

theorem invalidation_pass_sees_previous_type:
  fixes cb :: callbacks and w :: "'d world"
  assumes "getType w r = Some t"
  defines "notify \<equiv> \<lambda>l w'. call_onTypeReferenceInvalidated cb r (resolvedType (references w' r)) l w'"
  defines "ls \<equiv> listeners (references w r)"
  shows "(\<forall>n. getType (fold notify (take n ls) w) r = Some t) \<and>
         trace (fold notify ls w) = trace w @ invalidated_pass cb r (Some t) ls \<and>
         (\<forall>e \<in> set (invalidated_pass cb r (Some t) ls).
            \<exists>l. e = Invalidated r l (Some t) \<or> e = GotType r l (Some t)) \<and>
         removedType cb r t key w = startResolving cb r (fold notify ls w)"
  using assms(1)
  by (auto simp add: notify_def ls_def invalidated_fold_eq removedType_def getType_def
        dest: invalidated_pass_events)

theorem invalidation_pass_sees_previous_type_witness:
  "getType (run callbacks0 setup3 world0) 0 = Some typeA \<and>
   listeners (references (run callbacks0 setup3 world0) 0) = [1, 2] \<and>
   trace (run callbacks0 setup3 world0) = [] \<and>
   trace (fold (\<lambda>l w'. call_onTypeReferenceInvalidated callbacks0 0 (resolvedType (references w' 0)) l w')
            [1, 2] (run callbacks0 setup3 world0))
     = [Invalidated 0 1 (Some typeA), GotType 0 1 (Some typeA),
        Invalidated 0 2 (Some typeA), GotType 0 2 (Some typeA)] \<and>
   getType (fold (\<lambda>l w'. call_onTypeReferenceInvalidated callbacks0 0 (resolvedType (references w' 0)) l w')
            (take 1 [1, 2]) (run callbacks0 setup3 world0)) 0 = Some typeA"
proof -
  have g: "getType (run callbacks0 setup3 world0) 0 = Some typeA"
    by code_simp
  have l: "listeners (references (run callbacks0 setup3 world0) 0) = [1, 2]"
    by code_simp
  have t: "trace (run callbacks0 setup3 world0) = []"
    by code_simp
  have p: "invalidated_pass callbacks0 0 (Some typeA) [1, 2]
             = [Invalidated 0 1 (Some typeA), GotType 0 1 (Some typeA),
                Invalidated 0 2 (Some typeA), GotType 0 2 (Some typeA)]"
    by code_simp
  note pass = invalidation_pass_sees_previous_type [OF g, of callbacks0 "''A''"]
  show ?thesis
    using g l t p pass [THEN conjunct1, THEN spec, of 1] pass [THEN conjunct2, THEN conjunct1]
    by simp
qed

section \<open>Removal of the Type of a resolved reference\<close>

lemma removedType_other:
  "Some t \<noteq> getType w r \<Longrightarrow> removedType cb r t key w = w"
  by (simp add: removedType_def getType_def)

lemma ignored_notifications:
  "addedEdge r e w = w" "removedEdge r e w = w" "removedInferenceRule r rule b w = w"
  by (simp_all add: addedEdge_def removedEdge_def removedInferenceRule_def)

text \<open>
  What the handler does when it is called with the Type of the reference, for
  a reference whose selector is an identifier that the graph no longer has:
  every listener of the array is told, the reference is unresolved and is
  subscribed again.
\<close>

lemma removedType_when_delivered:
  assumes "getType w r = Some t" and "selector (references w r) = SelIdentifier k"
      and "graph_nodes w k = None" and "unsubscribed w r"
  shows "getType (removedType cb r t key w) r = None \<and>
         subscribed (removedType cb r t key w) r \<and>
         notifications r (trace (removedType cb r t key w))
           = notifications r (trace w) @ map (\<lambda>l. Invalidated r l (Some t)) (listeners (references w r))"
proof -
  let ?ls = "listeners (references w r)"
  let ?v = "set_listeners r (listeners_after (\<lambda>l. onTypeReferenceInvalidated cb l r (Some t)) ?ls ?ls)
              (invalidated_pass cb r (Some t) ?ls) w"
  let ?u = "inference_addListener r (graph_addListener r
              (update_reference r (\<lambda>x. x\<lparr>resolvedType := None\<rparr>) ?v))"
  have r: "removedType cb r t key w = startResolving cb r ?v"
    using assms(1) by (simp add: removedType_def invalidated_fold_eq getType_def)
  have "resolve cb r ?u = (RESOLVING_FAILED, ?u)"
    using assms(2,3) by (intro resolve_failed) (simp_all add: prims)
  then have "removedType cb r t key w = ?u"
    by (simp add: r startResolving_def)
  then show ?thesis
    by (simp add: prims subscribed_def notifications_invalidated_pass)
qed

text \<open>
  A resolved live reference is in neither registry, so a removal made on the
  graph does not reach it, whichever Type is removed.
\<close>

lemma removal_not_delivered:
  assumes "subscription_count w r" and "getType w r = Some t"
  shows "untouched r w (graph_removeNode cb t' key w)"
proof -
  have "unsubscribed w r"
    using subscription_count_cases [OF assms(1)] assms(2) by simp
  with untouched_step [of r "OpGraphRemoveNode t' key" w cb] show ?thesis by simp
qed

text \<open>
  C3. The handler \<open>removedType\<close> invalidates the reference and starts resolving
  again once it is called with the Type of the reference
  (\<open>removedType_when_delivered\<close>), and the other notifications are ignored
  (\<open>removedType_other\<close>, \<open>ignored_notifications\<close>). But the graph never calls it
  for the Type of a resolved reference: \<open>resolve\<close> has taken the reference out
  of the registry of the graph (\<open>removal_not_delivered\<close>). In the run below a
  reference is resolved to the Type A and has two listeners. Removing A from the
  graph calls no listener and leaves the reference resolved to the removed
  Type; adding another Type under the same identifier changes nothing either.
\<close>

theorem removal_does_not_invalidate:
  "getType (run callbacks0 setup3 world0) 0 = Some typeA \<and>
   listeners (references (run callbacks0 setup3 world0) 0) = [1, 2] \<and>
   graph_listeners (run callbacks0 setup3 world0) = [] \<and>
   trace (run callbacks0 setup3 world0) = [] \<and>
   graph_nodes (graph_removeNode callbacks0 typeA ''A'' (run callbacks0 setup3 world0)) ''A'' = None \<and>
   getType (graph_removeNode callbacks0 typeA ''A'' (run callbacks0 setup3 world0)) 0 = Some typeA \<and>
   trace (graph_removeNode callbacks0 typeA ''A'' (run callbacks0 setup3 world0)) = [] \<and>
   getType (graph_addNode callbacks0 typeA2 ''A''
              (graph_removeNode callbacks0 typeA ''A'' (run callbacks0 setup3 world0))) 0 = Some typeA \<and>
   trace (graph_addNode callbacks0 typeA2 ''A''
              (graph_removeNode callbacks0 typeA ''A'' (run callbacks0 setup3 world0))) = []"
  by code_simp

section \<open>Authoritative resolution of a selector\<close>

lemma resolveTypeSelector_undefined_iff:
  "resolveTypeSelector w s = Inr None \<longleftrightarrow>
     (\<exists>r. final_selector s = SelReference r \<and> getType w r = None)"
  by (induction s) (auto split: option.splits inference_result.splits)

lemma resolveTypeSelector_throws_iff:
  "(\<exists>e. resolveTypeSelector w s = Inl e) \<longleftrightarrow>
     (\<exists>k. final_selector s = SelIdentifier k \<and> graph_nodes w k = None) \<or>
     (\<exists>d ps. final_selector s = SelKnown d \<and> inference_inferType w d = InferenceProblems ps)"
  by (induction s) (auto split: option.splits inference_result.splits)

text \<open>
  C1. For a selector that is a TypeReference, \<open>resolveTypeSelector\<close> returns what
  \<open>getType\<close> of the reference returns. Below, the reference at address 0 selects
  the identifier A in a graph that has no such Type, so it is not resolved:
  \<open>resolveTypeSelector\<close> on the reference returns \<^verbatim>\<open>undefined\<close>, where the same
  identifier given as a string makes it throw. By
  \<open>resolveTypeSelector_undefined_iff\<close> these are the only selectors for which it
  returns \<^verbatim>\<open>undefined\<close>: those that are, or unfold to, a reference that is not
  resolved.
\<close>

theorem unresolved_reference_selector_returns_undefined:
  "getType (construct callbacks0 0 (SelIdentifier ''A'') world0) 0 = None \<and>
   resolveTypeSelector (construct callbacks0 0 (SelIdentifier ''A'') world0) (SelReference 0)
     = Inr None \<and>
   resolveTypeSelector (construct callbacks0 0 (SelIdentifier ''A'') world0)
       (SelFunction (\<lambda>u. SelReference 0))
     = Inr None \<and>
   resolveTypeSelector (construct callbacks0 0 (SelIdentifier ''A'') world0) (SelIdentifier ''A'')
     = Inl (Error (''A type with identifier '' @ quote @ ''A'' @ quote
                     @ '' as TypeSelector does not exist in the type graph.''))"
  by code_simp

end
